theory Spec2Isabelle
  imports Main
begin

section \<open>The user model of foodsaving/users/models.py\<close>

text \<open>
  The module defines the Django model \<open>User\<close> and its manager \<open>UserManager\<close>.
  The model below keeps the two layers the Python has: the instance in memory (the
  object whose attributes the methods assign) and the database (the tables that
  \<open>save()\<close>, \<open>filter(...).delete()\<close>, \<open>create\<close> and \<open>get\<close> read and write).
  A method is a function from the instance and the database to either an exception or
  the updated instance and database. Every method that writes is decorated with
  \<open>transaction.atomic\<close>: when it raises, the caller keeps the database it passed in.
\<close>

subsection \<open>Exceptions\<close>

datatype error =
    ValueError string
  | DoesNotExist
  | MultipleObjectsReturned
  | IntegrityError

definition then_do :: "error + 'a \<Rightarrow> ('a \<Rightarrow> error + 'b) \<Rightarrow> error + 'b" where
  "then_do m f = (case m of Inl e \<Rightarrow> Inl e | Inr x \<Rightarrow> f x)"

subsection \<open>Strings\<close>

text \<open>
  Python strings are modelled as byte strings. On ASCII strings, those that
  \<open>str.isascii()\<close> accepts, \<open>lower\<close>, \<open>upper\<close> and \<open>strip\<close> do what Python's
  \<open>str.lower()\<close>, \<open>str.upper()\<close> and \<open>str.strip()\<close> do, and \<open>iexact\<close> compares as
  the database does. Outside ASCII they do not: Python strips the Unicode spaces too
  and maps the letters beyond ASCII, while the functions here leave every byte above 127
  alone. What is proved below about normalization and the lookup by email is therefore
  stated for ASCII addresses.
\<close>

definition isascii :: "string \<Rightarrow> bool" where
  "isascii s = (\<forall>c \<in> set s. (of_char c :: nat) < 128)"

definition lower_char :: "char \<Rightarrow> char" where
  "lower_char c =
     (let n = (of_char c :: nat) in if 65 \<le> n \<and> n \<le> 90 then char_of (n + 32) else c)"

definition upper_char :: "char \<Rightarrow> char" where
  "upper_char c =
     (let n = (of_char c :: nat) in if 97 \<le> n \<and> n \<le> 122 then char_of (n - 32) else c)"

definition lower :: "string \<Rightarrow> string" where
  "lower s = map lower_char s"

definition upper :: "string \<Rightarrow> string" where
  "upper s = map upper_char s"

definition is_space :: "char \<Rightarrow> bool" where
  "is_space c = ((of_char c :: nat) \<in> {9, 10, 11, 12, 13, 28, 29, 30, 31, 32})"

definition strip :: "string \<Rightarrow> string" where
  "strip s = rev (dropWhile is_space (rev (dropWhile is_space s)))"

text \<open>
  \<open>s.rsplit('@', 1)\<close> unpacked into two names: the parts around the last \<open>@\<close>, and
  \<open>None\<close> where Python raises ValueError because there is no \<open>@\<close> to split at.
\<close>

definition rsplit_at :: "string \<Rightarrow> (string \<times> string) option" where
  "rsplit_at s =
     (if CHR ''@'' \<in> set s
      then Some (rev (tl (dropWhile (\<lambda>c. c \<noteq> CHR ''@'') (rev s))),
                 rev (takeWhile (\<lambda>c. c \<noteq> CHR ''@'') (rev s)))
      else None)"

text \<open>
  \<open>BaseUserManager.normalize_email\<close> of Django, which \<open>_validate_email\<close> calls: the
  address is stripped and its domain part lowercased when it holds an \<open>@\<close>, and
  returned as it is otherwise.
\<close>

definition normalize_email :: "string \<Rightarrow> string" where
  "normalize_email email =
     (case rsplit_at (strip email) of
        None \<Rightarrow> email
      | Some (email_name, domain_part) \<Rightarrow> email_name @ ''@'' @ lower domain_part)"

text \<open>The lookup \<open>email__iexact\<close>: equality up to case.\<close>

definition iexact :: "string \<Rightarrow> string \<Rightarrow> bool" where
  "iexact a b = (upper a = upper b)"

subsection \<open>The fields of User\<close>

text \<open>
  \<open>Hashed raw\<close> stands for the one-way hash that \<open>set_password(raw)\<close> stores;
  \<open>Unusable\<close> for the marker that \<open>set_unusable_password()\<close> and
  \<open>set_password(None)\<close> store; \<open>Unset\<close> for the empty password of a fresh instance.
\<close>

datatype credential = Unset | Hashed string | Unusable

text \<open>
  One row of the user table, and the columns of an instance. \<open>pk\<close> is \<open>None\<close>
  until the first \<open>save()\<close>. The fields inherited from \<open>BaseModel\<close> and
  \<open>LocationModel\<close> are declared outside this module and no method here assigns them.
\<close>

record user_row =
  pk :: "nat option"
  password :: credential
  email :: "string option"
  is_active :: bool
  is_staff :: bool
  is_superuser :: bool
  display_name :: "string option"
  description :: string
  language :: string
  mail_verified :: bool
  unverified_email :: "string option"
  mobile_number :: string
  deleted :: bool
  deleted_at :: "nat option"
  current_group :: "nat option"
  photo :: "string option"

text \<open>
  An instance in memory: the columns, and the attribute \<open>mail\<close>, which is no field of
  the model and which \<open>delete_\<close> assigns. \<open>mail = None\<close> is the attribute absent,
  \<open>mail = Some v\<close> the attribute holding \<open>v\<close> (Python's \<open>None\<close> being \<open>Some None\<close>).
\<close>

record user = user_row +
  mail :: "string option option"

subsection \<open>The collaborators\<close>

datatype code_type = EMAIL_VERIFICATION | PASSWORD_RESET | ACCOUNT_DELETE

record verification_code =
  vc_user :: nat
  vc_type :: code_type
  vc_code :: nat

record message =
  template :: string
  recipient :: "string option"
  code_sent :: "nat option"

text \<open>
  The database and the outside world the methods touch: the user table, the table of
  verification codes with the counter the next code is drawn from, the groups and the
  membership table (group, user), the image store (original files and their renditions,
  each rendition with the name of its original), and the emails sent.
\<close>

record database =
  users :: "user_row list"
  codes :: "verification_code list"
  next_code :: nat
  groups :: "nat list"
  memberships :: "(nat \<times> nat) list"
  originals :: "string list"
  renditions :: "(string \<times> string) list"
  outbox :: "message list"

text \<open>
  Modelled from the spec: the Verification Code Issuer (foodsaving.userauth.models,
  not part of this module). The spec gives its contract: \<open>deleteAll(user, purpose)\<close>
  removes every code of that user and purpose, \<open>create(user, purpose)\<close> stores a new
  code, \<open>get(user, purpose)\<close> fails with NotFound if none is pending. Codes refer to a
  stored user, so an instance that was never saved owns none and cannot be given one.
\<close>

definition vc_filter :: "nat option \<Rightarrow> code_type \<Rightarrow> database \<Rightarrow> verification_code list" where
  "vc_filter u t d = filter (\<lambda>c. Some (vc_user c) = u \<and> vc_type c = t) (codes d)"

definition vc_delete :: "nat option \<Rightarrow> code_type \<Rightarrow> database \<Rightarrow> database" where
  "vc_delete u t d =
     d\<lparr>codes := filter (\<lambda>c. \<not> (Some (vc_user c) = u \<and> vc_type c = t)) (codes d)\<rparr>"

definition vc_create :: "nat option \<Rightarrow> code_type \<Rightarrow> database \<Rightarrow> error + database" where
  "vc_create u t d =
     (case u of
        None \<Rightarrow> Inl (ValueError ''save() prohibited: unsaved related object'')
      | Some i \<Rightarrow>
          Inr (d\<lparr>codes := codes d @ [\<lparr>vc_user = i, vc_type = t, vc_code = next_code d\<rparr>],
                 next_code := Suc (next_code d)\<rparr>))"

definition vc_get :: "nat option \<Rightarrow> code_type \<Rightarrow> database \<Rightarrow> error + verification_code" where
  "vc_get u t d =
     (case vc_filter u t d of
        [] \<Rightarrow> Inl DoesNotExist
      | [c] \<Rightarrow> Inr c
      | _ \<Rightarrow> Inl MultipleObjectsReturned)"

text \<open>
  Modelled from the spec: the Notification sender (foodsaving.utils.email_utils, not
  part of this module): \<open>prepareTemplatedEmail(templateKey, user, context)\<close> gives a
  sendable message to the user's canonical address, the mail-verification template
  takes a verification code and goes to the pending address. Sending appends to the
  outbox.
\<close>

definition prepare_email :: "string \<Rightarrow> user \<Rightarrow> nat option \<Rightarrow> message" where
  "prepare_email key u c = \<lparr>template = key, recipient = email u, code_sent = c\<rparr>"

definition prepare_mailverification_email :: "user \<Rightarrow> nat \<Rightarrow> message" where
  "prepare_mailverification_email u c =
     \<lparr>template = ''mailverification'', recipient = unverified_email u, code_sent = Some c\<rparr>"

definition send :: "message \<Rightarrow> database \<Rightarrow> database" where
  "send m d = d\<lparr>outbox := outbox d @ [m]\<rparr>"

subsection \<open>Saving an instance\<close>

definition fresh_pk :: "user_row list \<Rightarrow> nat" where
  "fresh_pk rows = Suc (fold max (map (\<lambda>r. case pk r of None \<Rightarrow> 0 | Some i \<Rightarrow> i) rows) 0)"

text \<open>
  \<open>Model.save()\<close> on the user table. The table rejects a row without display name
  (\<open>CharField\<close>, not null) and a row whose email another row already holds
  (\<open>EmailField(unique=True, null=True)\<close>: the constraint compares the strings as they
  are, and nulls never clash). A new instance is inserted under a fresh key; a stored
  one overwrites its row, all columns at once. The attribute \<open>mail\<close> is no column and
  is not written. Length limits of the columns, which only some databases enforce, are
  left out.
\<close>

definition save :: "user \<Rightarrow> database \<Rightarrow> error + (user \<times> database)" where
  "save self d =
     (if display_name self = None then Inl IntegrityError
      else if email self \<noteq> None \<and>
              (\<exists>r \<in> set (users d). pk r \<noteq> pk self \<and> email r = email self)
      then Inl IntegrityError
      else
        (case pk self of
           None \<Rightarrow>
             (let self' = self\<lparr>pk := Some (fresh_pk (users d))\<rparr>
              in Inr (self', d\<lparr>users := users d @ [user_row.truncate self']\<rparr>))
         | Some i \<Rightarrow>
             (if \<exists>r \<in> set (users d). pk r = Some i
              then Inr (self, d\<lparr>users :=
                     map (\<lambda>r. if pk r = Some i then user_row.truncate self else r) (users d)\<rparr>)
              else Inr (self, d\<lparr>users := users d @ [user_row.truncate self]\<rparr>))))"

definition set_password :: "string option \<Rightarrow> user \<Rightarrow> user" where
  "set_password raw self =
     self\<lparr>password := (case raw of None \<Rightarrow> Unusable | Some p \<Rightarrow> Hashed p)\<rparr>"

definition set_unusable_password :: "user \<Rightarrow> user" where
  "set_unusable_password self = self\<lparr>password := Unusable\<rparr>"

text \<open>
  Modelled from the spec: the Group/Membership store (foodsaving.groups.models, not
  part of this module): \<open>findGroupsContaining(user)\<close> and
  \<open>removeMembership(group, user)\<close>, here \<open>Group.objects.filter(members__in=[self])\<close>
  and \<open>GroupMembership.objects.filter(group=_, user=self).delete()\<close>.
\<close>

definition groups_containing :: "nat option \<Rightarrow> database \<Rightarrow> nat list" where
  "groups_containing u d =
     filter (\<lambda>g. \<exists>m \<in> set (memberships d). fst m = g \<and> Some (snd m) = u) (groups d)"

definition membership_delete :: "nat \<Rightarrow> nat option \<Rightarrow> database \<Rightarrow> database" where
  "membership_delete g u d =
     d\<lparr>memberships := filter (\<lambda>m. \<not> (fst m = g \<and> Some (snd m) = u)) (memberships d)\<rparr>"

text \<open>
  Modelled from the spec: the Image store behind the photo field (versatileimagefield):
  \<open>deleteAllRenditions()\<close> removes the generated size variants of the file,
  \<open>deleteOriginal()\<close> removes the file itself and empties the field, without saving.
\<close>

definition delete_all_created_images :: "user \<Rightarrow> database \<Rightarrow> database" where
  "delete_all_created_images self d =
     (case photo self of
        None \<Rightarrow> d
      | Some f \<Rightarrow> d\<lparr>renditions := filter (\<lambda>r. fst r \<noteq> f) (renditions d)\<rparr>)"

definition photo_delete :: "user \<Rightarrow> database \<Rightarrow> user \<times> database" where
  "photo_delete self d =
     (case photo self of
        None \<Rightarrow> (self, d)
      | Some f \<Rightarrow> (self\<lparr>photo := None\<rparr>, d\<lparr>originals := filter (\<lambda>x. x \<noteq> f) (originals d)\<rparr>))"

subsection \<open>The methods of User\<close>

definition delete_photo :: "user \<Rightarrow> database \<Rightarrow> user \<times> database" where
  "delete_photo self d = photo_delete self (delete_all_created_images self d)"

definition verify_mail :: "user \<Rightarrow> database \<Rightarrow> error + (user \<times> database)" where
  "verify_mail self d =
     (let d1 = vc_delete (pk self) EMAIL_VERIFICATION d;
          self1 = self\<lparr>email := unverified_email self\<rparr>;
          self2 = self1\<lparr>mail_verified := True\<rparr>
      in save self2 d1)"

definition unverify_mail' :: "user \<Rightarrow> database \<Rightarrow> error + (user \<times> database)" where
  "unverify_mail' self d =
     (let d1 = vc_delete (pk self) EMAIL_VERIFICATION d
      in then_do (vc_create (pk self) EMAIL_VERIFICATION d1) (\<lambda>d2.
           save (self\<lparr>mail_verified := False\<rparr>) d2))"

definition send_mail_change_notification' :: "user \<Rightarrow> database \<Rightarrow> database" where
  "send_mail_change_notification' self d = send (prepare_email ''changemail_notice'' self None) d"

definition send_welcome_mail' :: "user \<Rightarrow> database \<Rightarrow> error + (user \<times> database)" where
  "send_welcome_mail' self d =
     then_do (unverify_mail' self d) (\<lambda>(self1, d1).
     then_do (vc_get (pk self1) EMAIL_VERIFICATION d1) (\<lambda>verification_code.
       Inr (self1, send (prepare_mailverification_email self1 (vc_code verification_code)) d1)))"

definition send_mail_verification_code :: "user \<Rightarrow> database \<Rightarrow> error + (user \<times> database)" where
  "send_mail_verification_code self d =
     then_do (unverify_mail' self d) (\<lambda>(self1, d1).
     then_do (vc_get (pk self1) EMAIL_VERIFICATION d1) (\<lambda>verification_code.
       Inr (self1, send (prepare_mailverification_email self1 (vc_code verification_code)) d1)))"

definition update_email :: "string \<Rightarrow> user \<Rightarrow> database \<Rightarrow> error + (user \<times> database)" where
  "update_email new self d =
     (let self1 = self\<lparr>unverified_email := Some new\<rparr>;
          d1 = send_mail_change_notification' self1 d
      in send_mail_verification_code self1 d1)"

definition restore_email :: "user \<Rightarrow> database \<Rightarrow> error + (user \<times> database)" where
  "restore_email self d =
     (let d1 = vc_delete (pk self) EMAIL_VERIFICATION d;
          self1 = self\<lparr>unverified_email := email self\<rparr>;
          self2 = self1\<lparr>mail_verified := True\<rparr>
      in save self2 d1)"

text \<open>\<open>update_language\<close> assigns the attribute and returns: it does not call \<open>save()\<close>.\<close>

definition update_language :: "string \<Rightarrow> user \<Rightarrow> database \<Rightarrow> error + (user \<times> database)" where
  "update_language lang self d = Inr (self\<lparr>language := lang\<rparr>, d)"

definition send_account_deletion_verification_code ::
  "user \<Rightarrow> database \<Rightarrow> error + (user \<times> database)" where
  "send_account_deletion_verification_code self d =
     (let d1 = vc_delete (pk self) ACCOUNT_DELETE d
      in then_do (vc_create (pk self) ACCOUNT_DELETE d1) (\<lambda>d2.
           Inr (self, send (prepare_email ''accountdelete_request'' self (Some (next_code d1))) d2)))"

definition reset_password :: "user \<Rightarrow> database \<Rightarrow> error + (user \<times> database)" where
  "reset_password self d =
     (let d1 = vc_delete (pk self) PASSWORD_RESET d
      in then_do (vc_create (pk self) PASSWORD_RESET d1) (\<lambda>d2.
         then_do (vc_get (pk self) PASSWORD_RESET d2) (\<lambda>c.
           Inr (self, send (prepare_email ''passwordreset'' self (Some (vc_code c))) d2))))"

definition change_password :: "string \<Rightarrow> user \<Rightarrow> database \<Rightarrow> error + (user \<times> database)" where
  "change_password new_password self d =
     then_do (save (set_password (Some new_password) self) d) (\<lambda>(self1, d1).
       Inr (self1, vc_delete (pk self1) PASSWORD_RESET
                     (send (prepare_email ''passwordchange'' self1 None) d1)))"

text \<open>
  \<open>delete_\<close>; \<open>now\<close> is the value \<open>timezone.now()\<close> returns during the call. The
  assignment \<open>self.mail = None\<close> sets the attribute \<open>mail\<close>; the field \<open>email\<close> is
  not assigned anywhere in the method. The signal handlers that the deletion of a
  membership triggers (they take the user out of pick-ups) live outside this module.
\<close>

definition delete' :: "nat \<Rightarrow> user \<Rightarrow> database \<Rightarrow> error + (user \<times> database)" where
  "delete' now self d =
     (let d1 = fold (\<lambda>g. membership_delete g (pk self)) (groups_containing (pk self) d) d;
          self1 = self\<lparr>description := ''''\<rparr>;
          self2 = set_unusable_password self1;
          self3 = self2\<lparr>mail := Some None\<rparr>;
          self4 = self3\<lparr>is_active := False\<rparr>;
          self5 = self4\<lparr>is_staff := False\<rparr>;
          self6 = self5\<lparr>mail_verified := False\<rparr>;
          self7 = self6\<lparr>unverified_email := None\<rparr>;
          self8 = self7\<lparr>deleted_at := Some now\<rparr>;
          self9 = self8\<lparr>deleted := True\<rparr>;
          (self10, d2) = delete_photo self9 d1
      in then_do (save self10 d2) (\<lambda>(self11, d3).
           Inr (self11, send (prepare_email ''accountdelete_success'' self11 None) d3)))"

subsection \<open>The methods of UserManager\<close>

text \<open>
  The keyword arguments \<open>**extra_fields\<close>: assignments to fields of the model other
  than the named parameters (email, password, display_name, is_active) and the primary
  key, which the database assigns. A later assignment to a field overrides an earlier
  one, as storing under an existing key of a dict does.
\<close>

datatype field_value =
    Is_staff bool
  | Is_superuser bool
  | Description string
  | Language string
  | Mail_verified bool
  | Unverified_email "string option"
  | Mobile_number string
  | Deleted bool
  | Deleted_at "nat option"
  | Current_group "nat option"
  | Photo "string option"

fun set_field :: "field_value \<Rightarrow> user \<Rightarrow> user" where
  "set_field (Is_staff b) u = u\<lparr>is_staff := b\<rparr>"
| "set_field (Is_superuser b) u = u\<lparr>is_superuser := b\<rparr>"
| "set_field (Description s) u = u\<lparr>description := s\<rparr>"
| "set_field (Language s) u = u\<lparr>language := s\<rparr>"
| "set_field (Mail_verified b) u = u\<lparr>mail_verified := b\<rparr>"
| "set_field (Unverified_email e) u = u\<lparr>unverified_email := e\<rparr>"
| "set_field (Mobile_number s) u = u\<lparr>mobile_number := s\<rparr>"
| "set_field (Deleted b) u = u\<lparr>deleted := b\<rparr>"
| "set_field (Deleted_at t) u = u\<lparr>deleted_at := t\<rparr>"
| "set_field (Current_group g) u = u\<lparr>current_group := g\<rparr>"
| "set_field (Photo f) u = u\<lparr>photo := f\<rparr>"

text \<open>\<open>self.model(**kwargs)\<close>: the defaults the fields declare, then the arguments.\<close>

definition defaults :: user where
  "defaults =
     \<lparr>pk = None, password = Unset, email = None, is_active = True, is_staff = False,
      is_superuser = False, display_name = None, description = '''', language = ''en'',
      mail_verified = False, unverified_email = None, mobile_number = '''',
      deleted = False, deleted_at = None, current_group = None, photo = None,
      mail = None\<rparr>"

definition model ::
  "string option \<Rightarrow> bool \<Rightarrow> string option \<Rightarrow> field_value list \<Rightarrow> user" where
  "model e active name extra_fields =
     fold set_field extra_fields
       (defaults\<lparr>email := e, is_active := active, display_name := name\<rparr>)"

definition validate_email' :: "string option \<Rightarrow> error + string" where
  "validate_email' e =
     (case e of
        None \<Rightarrow> Inl (ValueError ''The email field must be set'')
      | Some s \<Rightarrow> Inr (normalize_email s))"

definition create_user' ::
  "string option \<Rightarrow> string option \<Rightarrow> string option \<Rightarrow> bool \<Rightarrow> field_value list \<Rightarrow>
   database \<Rightarrow> error + (user \<times> database)" where
  "create_user' e pw name active extra_fields d =
     then_do (validate_email' e) (\<lambda>e1.
       (let extra_fields1 = extra_fields @ [Unverified_email (Some e1)];
            user0 = model (Some e1) active name extra_fields1;
            user1 = set_password pw user0
        in then_do (save user1 d) (\<lambda>(user2, d1). send_welcome_mail' user2 d1)))"

definition create_user ::
  "string option \<Rightarrow> string option \<Rightarrow> string option \<Rightarrow> field_value list \<Rightarrow>
   database \<Rightarrow> error + (user \<times> database)" where
  "create_user e pw name extra_fields d = create_user' e pw name True extra_fields d"

definition create_superuser ::
  "string option \<Rightarrow> string option \<Rightarrow> field_value list \<Rightarrow> database \<Rightarrow>
   error + (user \<times> database)" where
  "create_superuser e pw extra_fields d =
     then_do (create_user' e pw e True extra_fields d) (\<lambda>(user0, d1).
       (let user1 = user0\<lparr>is_superuser := True\<rparr>;
            user2 = user1\<lparr>is_staff := True\<rparr>
        in save user2 d1))"

definition filter_by_similar_email :: "string \<Rightarrow> database \<Rightarrow> user_row list" where
  "filter_by_similar_email e d =
     filter (\<lambda>r. case email r of None \<Rightarrow> False | Some x \<Rightarrow> iexact x e) (users d)"

definition get_by_natural_key :: "string \<Rightarrow> database \<Rightarrow> error + user_row" where
  "get_by_natural_key e d =
     (case filter_by_similar_email e d of
        [] \<Rightarrow> Inl DoesNotExist
      | [r] \<Rightarrow> Inr r
      | _ \<Rightarrow> Inl MultipleObjectsReturned)"

subsection \<open>Sequences of calls\<close>

text \<open>
  The calls a client can make on an account, and a run of them on one instance: each
  call works on the instance and the database the previous one left, and the run stops
  at the first exception.
\<close>

datatype operation =
    Verify_mail
  | Update_email string
  | Restore_email
  | Update_language string
  | Send_mail_verification_code
  | Send_account_deletion_verification_code
  | Reset_password
  | Change_password string
  | Delete nat

fun call :: "operation \<Rightarrow> user \<Rightarrow> database \<Rightarrow> error + (user \<times> database)" where
  "call Verify_mail = verify_mail"
| "call (Update_email new) = update_email new"
| "call Restore_email = restore_email"
| "call (Update_language lang) = update_language lang"
| "call Send_mail_verification_code = send_mail_verification_code"
| "call Send_account_deletion_verification_code = send_account_deletion_verification_code"
| "call Reset_password = reset_password"
| "call (Change_password new_password) = change_password new_password"
| "call (Delete now) = delete' now"

fun run :: "operation list \<Rightarrow> user \<Rightarrow> database \<Rightarrow> error + (user \<times> database)" where
  "run [] self d = Inr (self, d)"
| "run (op # ops) self d = then_do (call op self d) (\<lambda>(self1, d1). run ops self1 d1)"

text \<open>
  The coupling of \<open>mail_verified\<close> with the verification codes: the account is stored
  in exactly one row, which carries the flag of the instance, and a code of type
  EMAIL_VERIFICATION is pending for it exactly when the flag is false.
\<close>

definition code_pending :: "user \<Rightarrow> database \<Rightarrow> bool" where
  "code_pending self d = (vc_filter (pk self) EMAIL_VERIFICATION d \<noteq> [])"

definition verification_coupled :: "user \<Rightarrow> database \<Rightarrow> bool" where
  "verification_coupled self d =
     (pk self \<noteq> None \<and>
      map mail_verified (filter (\<lambda>r. pk r = pk self) (users d)) = [mail_verified self] \<and>
      (code_pending self d \<longleftrightarrow> \<not> mail_verified self))"

subsection \<open>Example states\<close>

definition db0 :: database where
  "db0 = \<lparr>users = [], codes = [], next_code = 0, groups = [], memberships = [],
          originals = [], renditions = [], outbox = []\<rparr>"

text \<open>The account that \<open>create_user\<close> makes of ann@X.com in the empty database.\<close>

definition ann :: user where
  "ann = \<lparr>pk = Some 1, password = Hashed ''secret'', email = Some ''ann@x.com'',
          is_active = True, is_staff = False, is_superuser = False,
          display_name = Some ''Ann'', description = '''', language = ''en'',
          mail_verified = False, unverified_email = Some ''ann@x.com'',
          mobile_number = '''', deleted = False, deleted_at = None,
          current_group = None, photo = None, mail = None\<rparr>"

definition db_ann :: database where
  "db_ann = \<lparr>users = [user_row.truncate ann],
          codes = [\<lparr>vc_user = 1, vc_type = EMAIL_VERIFICATION, vc_code = 0\<rparr>],
          next_code = 1, groups = [], memberships = [], originals = [], renditions = [],
          outbox = [\<lparr>template = ''mailverification'', recipient = Some ''ann@x.com'',
                     code_sent = Some 0\<rparr>]\<rparr>"

text \<open>Ann after \<open>verify_mail\<close>.\<close>

definition ann_verified :: user where
  "ann_verified = ann\<lparr>mail_verified := True\<rparr>"

definition db_verified :: database where
  "db_verified = db_ann\<lparr>users := [user_row.truncate ann_verified], codes := []\<rparr>"

text \<open>
  A second account, verified, on the staff, with a photo and two size variants of it,
  member of the groups 10 and 11; Ann is a member of group 10.
\<close>

definition bea :: user where
  "bea = \<lparr>pk = Some 2, password = Hashed ''geheim'', email = Some ''bea@x.com'',
          is_active = True, is_staff = True, is_superuser = False,
          display_name = Some ''Bea'', description = ''I save food'', language = ''de'',
          mail_verified = True, unverified_email = Some ''bea@x.com'',
          mobile_number = '''', deleted = False, deleted_at = None,
          current_group = Some 10, photo = Some ''bea.jpg'', mail = None\<rparr>"

definition db_bea :: database where
  "db_bea = \<lparr>users = [user_row.truncate ann, user_row.truncate bea],
          codes = [\<lparr>vc_user = 1, vc_type = EMAIL_VERIFICATION, vc_code = 0\<rparr>],
          next_code = 1, groups = [10, 11], memberships = [(10, 1), (10, 2), (11, 2)],
          originals = [''bea.jpg''],
          renditions = [(''bea.jpg'', ''bea_100.jpg''), (''bea.jpg'', ''bea_200.jpg'')],
          outbox = []\<rparr>"

text \<open>What \<open>delete_\<close> at time 7 makes of Bea and the database.\<close>

definition bea_deleted :: user where
  "bea_deleted = \<lparr>pk = Some 2, password = Unusable, email = Some ''bea@x.com'',
          is_active = False, is_staff = False, is_superuser = False,
          display_name = Some ''Bea'', description = '''', language = ''de'',
          mail_verified = False, unverified_email = None,
          mobile_number = '''', deleted = True, deleted_at = Some 7,
          current_group = Some 10, photo = None, mail = Some None\<rparr>"

definition db_bea_deleted :: database where
  "db_bea_deleted = \<lparr>users = [user_row.truncate ann, user_row.truncate bea_deleted],
          codes = [\<lparr>vc_user = 1, vc_type = EMAIL_VERIFICATION, vc_code = 0\<rparr>],
          next_code = 1, groups = [10, 11], memberships = [(10, 1)],
          originals = [], renditions = [],
          outbox = [\<lparr>template = ''accountdelete_success'', recipient = Some ''bea@x.com'',
                     code_sent = None\<rparr>]\<rparr>"

text \<open>
  The account that \<open>create_user\<close> makes of Ann@x.com in the database that already
  holds Ann: the two addresses differ in the case of the local part only.
\<close>

definition ann_b :: user where
  "ann_b = \<lparr>pk = Some 2, password = Hashed ''geheim'', email = Some ''Ann@x.com'',
          is_active = True, is_staff = False, is_superuser = False,
          display_name = Some ''Ann B'', description = '''', language = ''en'',
          mail_verified = False, unverified_email = Some ''Ann@x.com'',
          mobile_number = '''', deleted = False, deleted_at = None,
          current_group = None, photo = None, mail = None\<rparr>"

definition db_ann_b :: database where
  "db_ann_b = \<lparr>users = [user_row.truncate ann, user_row.truncate ann_b],
          codes = [\<lparr>vc_user = 1, vc_type = EMAIL_VERIFICATION, vc_code = 0\<rparr>,
                   \<lparr>vc_user = 2, vc_type = EMAIL_VERIFICATION, vc_code = 1\<rparr>],
          next_code = 2, groups = [], memberships = [], originals = [], renditions = [],
          outbox = [\<lparr>template = ''mailverification'', recipient = Some ''ann@x.com'',
                     code_sent = Some 0\<rparr>,
                    \<lparr>template = ''mailverification'', recipient = Some ''Ann@x.com'',
                     code_sent = Some 1\<rparr>]\<rparr>"

text \<open>Ann, verified, after \<open>delete_\<close> at time 7.\<close>

definition ann_deleted :: user where
  "ann_deleted = \<lparr>pk = Some 1, password = Unusable, email = Some ''ann@x.com'',
          is_active = False, is_staff = False, is_superuser = False,
          display_name = Some ''Ann'', description = '''', language = ''en'',
          mail_verified = False, unverified_email = None,
          mobile_number = '''', deleted = True, deleted_at = Some 7,
          current_group = None, photo = None, mail = Some None\<rparr>"

definition db_ann_deleted :: database where
  "db_ann_deleted = \<lparr>users = [user_row.truncate ann_deleted], codes = [],
          next_code = 1, groups = [], memberships = [], originals = [], renditions = [],
          outbox = [\<lparr>template = ''mailverification'', recipient = Some ''ann@x.com'',
                     code_sent = Some 0\<rparr>,
                    \<lparr>template = ''accountdelete_success'', recipient = Some ''ann@x.com'',
                     code_sent = None\<rparr>]\<rparr>"

text \<open>
  The account that \<open>create_user\<close> makes of bob@X.com in the database that holds Ann.
\<close>

definition bob :: user where
  "bob = \<lparr>pk = Some 2, password = Hashed ''pw'', email = Some ''bob@x.com'',
          is_active = True, is_staff = False, is_superuser = False,
          display_name = Some ''Bob'', description = '''', language = ''en'',
          mail_verified = False, unverified_email = Some ''bob@x.com'',
          mobile_number = '''', deleted = False, deleted_at = None,
          current_group = None, photo = None, mail = None\<rparr>"

definition db_bob :: database where
  "db_bob = \<lparr>users = [user_row.truncate ann, user_row.truncate bob],
          codes = [\<lparr>vc_user = 1, vc_type = EMAIL_VERIFICATION, vc_code = 0\<rparr>,
                   \<lparr>vc_user = 2, vc_type = EMAIL_VERIFICATION, vc_code = 1\<rparr>],
          next_code = 2, groups = [], memberships = [], originals = [], renditions = [],
          outbox = [\<lparr>template = ''mailverification'', recipient = Some ''ann@x.com'',
                     code_sent = Some 0\<rparr>,
                    \<lparr>template = ''mailverification'', recipient = Some ''bob@x.com'',
                     code_sent = Some 1\<rparr>]\<rparr>"

section \<open>Basic facts\<close>

lemma then_do_Inl [simp]: "then_do (Inl e) f = Inl e"
  by (simp add: then_do_def)

lemma then_do_Inr [simp]: "then_do (Inr x) f = f x"
  by (simp add: then_do_def)

lemma then_do_eq_Inr: "then_do m f = Inr y \<longleftrightarrow> (\<exists>x. m = Inr x \<and> f x = Inr y)"
  by (cases m) simp_all

lemma truncate_fields [simp]:
  "pk (user_row.truncate u) = pk u"
  "password (user_row.truncate u) = password u"
  "email (user_row.truncate u) = email u"
  "is_active (user_row.truncate u) = is_active u"
  "is_staff (user_row.truncate u) = is_staff u"
  "is_superuser (user_row.truncate u) = is_superuser u"
  "display_name (user_row.truncate u) = display_name u"
  "description (user_row.truncate u) = description u"
  "language (user_row.truncate u) = language u"
  "mail_verified (user_row.truncate u) = mail_verified u"
  "unverified_email (user_row.truncate u) = unverified_email u"
  "mobile_number (user_row.truncate u) = mobile_number u"
  "deleted (user_row.truncate u) = deleted u"
  "deleted_at (user_row.truncate u) = deleted_at u"
  "current_group (user_row.truncate u) = current_group u"
  "photo (user_row.truncate u) = photo u"
  by (simp_all add: user_row.truncate_def)

lemma fold_max_ge: "a \<le> fold max xs (a::nat)"
  by (induction xs arbitrary: a) (auto intro: order_trans [OF max.cobounded2])

lemma fold_max_mem: "x \<in> set xs \<Longrightarrow> x \<le> fold max xs (a::nat)"
proof (induction xs arbitrary: a)
  case Nil
  then show ?case by simp
next
  case (Cons y ys)
  show ?case
  proof (cases "x = y")
    case True
    have "y \<le> max y a" by simp
    also have "\<dots> \<le> fold max ys (max y a)" by (rule fold_max_ge)
    finally show ?thesis using True by simp
  next
    case False
    with Cons show ?thesis by simp
  qed
qed

lemma fresh_pk_fresh: "r \<in> set rows \<Longrightarrow> pk r \<noteq> Some (fresh_pk rows)"
proof
  assume r: "r \<in> set rows" and eq: "pk r = Some (fresh_pk rows)"
  from r have "(case pk r of None \<Rightarrow> 0 | Some i \<Rightarrow> i)
      \<in> set (map (\<lambda>r. case pk r of None \<Rightarrow> 0 | Some i \<Rightarrow> i) rows)"
    by simp
  then have "(case pk r of None \<Rightarrow> 0 | Some i \<Rightarrow> i)
      \<le> fold max (map (\<lambda>r. case pk r of None \<Rightarrow> 0 | Some i \<Rightarrow> i) rows) 0"
    by (rule fold_max_mem)
  with eq show False by (simp add: fresh_pk_def)
qed

text \<open>What a successful save leaves behind.\<close>

lemma save_frame:
  assumes "save self d = Inr (self', d')"
  shows "d' = d\<lparr>users := users d'\<rparr>"
  using assms by (auto simp: save_def Let_def split: if_splits option.splits)

lemma save_self:
  assumes "save self d = Inr (self', d')"
  shows "self' = self\<lparr>pk := pk self'\<rparr>" and "pk self' \<noteq> None"
    and "pk self \<noteq> None \<Longrightarrow> self' = self" and "display_name self \<noteq> None"
  using assms by (auto simp: save_def Let_def split: if_splits option.splits)

lemma filter_replace:
  "pk t = k \<Longrightarrow>
   filter (\<lambda>r. pk r \<noteq> k) (map (\<lambda>r. if pk r = k then t else r) xs) =
   filter (\<lambda>r. pk r \<noteq> k) xs"
  by (induction xs) auto

lemma save_others:
  assumes "save self d = Inr (self', d')"
  shows "filter (\<lambda>r. pk r \<noteq> pk self') (users d') = filter (\<lambda>r. pk r \<noteq> pk self') (users d)"
proof (cases "pk self")
  case None
  with assms show ?thesis
    by (auto simp: save_def Let_def split: if_splits)
next
  case (Some i)
  with assms have "self' = self"
    by (auto simp: save_def split: if_splits)
  with assms Some show ?thesis
    by (auto simp: save_def filter_replace split: if_splits)
qed

lemma save_stored:
  assumes "save self d = Inr (self', d')"
  shows "user_row.truncate self' \<in> set (users d')"
  using assms by (auto simp: save_def Let_def split: if_splits option.splits)

lemma save_own_row:
  assumes "save self d = Inr (self', d')" and "r \<in> set (users d')" and "pk r = pk self'"
  shows "r = user_row.truncate self'"
  using assms
  by (auto simp: save_def Let_def fresh_pk_fresh split: if_splits option.splits)

lemma vc_filter_codes: "codes d' = codes d \<Longrightarrow> vc_filter u t d' = vc_filter u t d"
  by (simp add: vc_filter_def)

lemma vc_filter_vc_delete_same [simp]: "vc_filter u t (vc_delete u t d) = []"
  by (simp add: vc_filter_def vc_delete_def)

lemma vc_filter_vc_delete_other:
  "u \<noteq> u' \<or> t \<noteq> t' \<Longrightarrow> vc_filter u t (vc_delete u' t' d) = vc_filter u t d"
  by (auto simp: vc_filter_def vc_delete_def intro: filter_cong)

lemma vc_create_Inr:
  assumes "vc_create u t d = Inr d'"
  shows "\<exists>i. u = Some i \<and>
           d' = d\<lparr>codes := codes d @ [\<lparr>vc_user = i, vc_type = t, vc_code = next_code d\<rparr>],
                   next_code := Suc (next_code d)\<rparr>"
  using assms by (auto simp: vc_create_def split: option.splits)

lemma vc_filter_vc_create_same:
  assumes "vc_create u t d = Inr d'"
  shows "vc_filter u t d' = vc_filter u t d @ [\<lparr>vc_user = the u, vc_type = t, vc_code = next_code d\<rparr>]"
  using assms by (auto simp: vc_create_def vc_filter_def split: option.splits)

lemma vc_filter_vc_create_other:
  assumes "vc_create u' t' d = Inr d'" and "u \<noteq> u' \<or> t \<noteq> t'"
  shows "vc_filter u t d' = vc_filter u t d"
  using assms by (auto simp: vc_create_def vc_filter_def split: option.splits)

lemma vc_filter_save:
  assumes "save self d = Inr (self', d')"
  shows "vc_filter u t d' = vc_filter u t d"
proof -
  from save_frame [OF assms] have "codes d' = codes d"
    by (metis database.select_convs(2) database.surjective database.update_convs(1))
  then show ?thesis by (rule vc_filter_codes)
qed

lemma vc_filter_send [simp]: "vc_filter u t (send m d) = vc_filter u t d"
  by (simp add: vc_filter_def send_def)

lemma unverify_mail'_Inr:
  assumes "unverify_mail' self d = Inr (self', d')"
  shows "pk self \<noteq> None" and "self' = self\<lparr>mail_verified := False\<rparr>"
    and "vc_filter (pk self) EMAIL_VERIFICATION d' =
           [\<lparr>vc_user = the (pk self), vc_type = EMAIL_VERIFICATION, vc_code = next_code d\<rparr>]"
    and "u \<noteq> pk self \<or> t \<noteq> EMAIL_VERIFICATION \<Longrightarrow> vc_filter u t d' = vc_filter u t d"
    and "outbox d' = outbox d"
proof -
  from assms obtain d2 where
    c: "vc_create (pk self) EMAIL_VERIFICATION (vc_delete (pk self) EMAIL_VERIFICATION d) = Inr d2"
    and s: "save (self\<lparr>mail_verified := False\<rparr>) d2 = Inr (self', d')"
    by (auto simp: unverify_mail'_def then_do_eq_Inr)
  from vc_create_Inr [OF c] show pk: "pk self \<noteq> None" by auto
  with save_self(3) [OF s] show "self' = self\<lparr>mail_verified := False\<rparr>" by simp
  have "vc_filter (pk self) EMAIL_VERIFICATION d' = vc_filter (pk self) EMAIL_VERIFICATION d2"
    by (rule vc_filter_save [OF s])
  also have "\<dots> = [\<lparr>vc_user = the (pk self), vc_type = EMAIL_VERIFICATION,
                     vc_code = next_code (vc_delete (pk self) EMAIL_VERIFICATION d)\<rparr>]"
    by (simp add: vc_filter_vc_create_same [OF c])
  finally show "vc_filter (pk self) EMAIL_VERIFICATION d' =
           [\<lparr>vc_user = the (pk self), vc_type = EMAIL_VERIFICATION, vc_code = next_code d\<rparr>]"
    by (simp add: vc_delete_def)
  show "vc_filter u t d' = vc_filter u t d" if "u \<noteq> pk self \<or> t \<noteq> EMAIL_VERIFICATION"
    using that vc_filter_save [OF s, of u t] vc_filter_vc_create_other [OF c, of u t]
      vc_filter_vc_delete_other [of u "pk self" t EMAIL_VERIFICATION d]
    by simp
  from save_frame [OF s] have "outbox d' = outbox d2"
    by (metis database.select_convs(8) database.surjective database.update_convs(1))
  with vc_create_Inr [OF c] show "outbox d' = outbox d"
    by (auto simp: vc_delete_def)
qed

lemma upper_char_idem: "upper_char (upper_char c) = upper_char c"
  by (auto simp: upper_char_def Let_def)

lemma upper_lower_char: "upper_char (lower_char c) = upper_char c"
  by (auto simp: upper_char_def lower_char_def Let_def)

lemma upper_idem: "upper (upper s) = upper s"
  by (simp add: upper_def upper_char_idem)

lemma rsplit_at_Some:
  assumes "rsplit_at s = Some (a, b)"
  shows "s = a @ ''@'' @ b"
proof -
  let ?P = "\<lambda>c. c \<noteq> CHR ''@''"
  from assms have mem: "CHR ''@'' \<in> set (rev s)"
    and a: "a = rev (tl (dropWhile ?P (rev s)))" and b: "b = rev (takeWhile ?P (rev s))"
    by (auto simp: rsplit_at_def split: if_splits)
  from mem have ne: "dropWhile ?P (rev s) \<noteq> []"
    by (simp add: dropWhile_eq_Nil_conv)
  then have "hd (dropWhile ?P (rev s)) = CHR ''@''"
    using hd_dropWhile [of ?P "rev s"] by simp
  with ne have d: "dropWhile ?P (rev s) = CHR ''@'' # tl (dropWhile ?P (rev s))"
    by (metis list.collapse)
  have "rev s = takeWhile ?P (rev s) @ dropWhile ?P (rev s)" by simp
  then have "rev s = takeWhile ?P (rev s) @ CHR ''@'' # tl (dropWhile ?P (rev s))"
    using d by simp
  then have "rev (rev s) = rev (takeWhile ?P (rev s) @ CHR ''@'' # tl (dropWhile ?P (rev s)))"
    by (rule arg_cong)
  then show ?thesis by (simp add: a b)
qed

lemma upper_normalize_email:
  assumes "strip e = e"
  shows "upper (normalize_email e) = upper e"
proof (cases "rsplit_at (strip e)")
  case None
  then show ?thesis by (simp add: normalize_email_def)
next
  case (Some ab)
  obtain a b where ab: "ab = (a, b)" by (cases ab)
  from Some ab have "strip e = a @ ''@'' @ b" by (intro rsplit_at_Some) simp
  with assms have e: "e = a @ ''@'' @ b" by simp
  have "upper (normalize_email e) = upper (a @ ''@'' @ lower b)"
    using Some ab by (simp add: normalize_email_def)
  also have "\<dots> = upper (a @ ''@'' @ b)"
    by (simp add: upper_def lower_def upper_lower_char)
  finally show ?thesis using e by simp
qed

lemma save_succeeds_iff:
  "(\<exists>y. save self d = Inr y) \<longleftrightarrow>
   display_name self \<noteq> None \<and>
   \<not> (email self \<noteq> None \<and> (\<exists>r \<in> set (users d). pk r \<noteq> pk self \<and> email r = email self))"
  by (auto simp: save_def Let_def split: option.splits)

lemma save_other_rows:
  assumes "save self d = Inr (self', d')" and "r \<in> set (users d')" and "pk r \<noteq> pk self'"
  shows "r \<in> set (users d)"
proof -
  from assms(2,3) have "r \<in> set (filter (\<lambda>r. pk r \<noteq> pk self') (users d'))" by simp
  then have "r \<in> set (filter (\<lambda>r. pk r \<noteq> pk self') (users d))"
    by (simp only: save_others [OF assms(1)])
  then show ?thesis by simp
qed

lemma save_again:
  assumes s: "save self d = Inr (self', d')" and stored: "pk self \<noteq> None"
    and x: "pk x = pk self" "email x = email self" "display_name x = display_name self"
  shows "\<exists>d''. save x d' = Inr (x, d'')"
proof -
  from save_self(3) [OF s stored] have eq: "self' = self" .
  have ok: "display_name self \<noteq> None \<and>
     \<not> (email self \<noteq> None \<and> (\<exists>r \<in> set (users d). pk r \<noteq> pk self \<and> email r = email self))"
    using s save_succeeds_iff [of self d] by auto
  have "\<not> (email x \<noteq> None \<and> (\<exists>r \<in> set (users d'). pk r \<noteq> pk x \<and> email r = email x))"
  proof
    assume "email x \<noteq> None \<and> (\<exists>r \<in> set (users d'). pk r \<noteq> pk x \<and> email r = email x)"
    then obtain r where ne: "email self \<noteq> None" and r: "r \<in> set (users d')"
      and k: "pk r \<noteq> pk self" and e: "email r = email self"
      using x by auto
    from save_other_rows [OF s r] k eq have "r \<in> set (users d)" by simp
    with ok ne k e show False by blast
  qed
  with ok x have "display_name x \<noteq> None \<and>
     \<not> (email x \<noteq> None \<and> (\<exists>r \<in> set (users d'). pk r \<noteq> pk x \<and> email r = email x))"
    by simp
  then have "\<exists>y. save x d' = Inr y"
    by (rule save_succeeds_iff [THEN iffD2])
  then obtain x' d'' where s': "save x d' = Inr (x', d'')" by auto
  from save_self(3) [OF s'] stored x have "x' = x" by simp
  with s' show ?thesis by blast
qed

lemma send_mail_verification_code_Inr:
  assumes "send_mail_verification_code self d = Inr (self', d')"
  shows "\<exists>d1. unverify_mail' self d = Inr (self', d1) \<and>
           d' = send (prepare_mailverification_email self' (next_code d)) d1"
proof -
  from assms obtain self1 d1 c where
    u: "unverify_mail' self d = Inr (self1, d1)"
    and g: "vc_get (pk self1) EMAIL_VERIFICATION d1 = Inr c"
    and r: "self' = self1" "d' = send (prepare_mailverification_email self1 (vc_code c)) d1"
    by (auto simp: send_mail_verification_code_def then_do_eq_Inr)
  from unverify_mail'_Inr(2) [OF u] have "pk self1 = pk self" by simp
  with g unverify_mail'_Inr(3) [OF u] have "vc_code c = next_code d"
    by (auto simp: vc_get_def)
  with u r show ?thesis by simp
qed

section \<open>The claims\<close>

text \<open>
  C10: \<open>update_email\<close> un-verifies the account. When the call returns, the instance
  differs from the one it was called on in the pending address, now the new one, and in
  \<open>mail_verified\<close>, now false; exactly one EMAIL_VERIFICATION code is pending for the
  account, the one issued during the call (it carries the counter value the call
  found); and the row of the account has been written.
\<close>

theorem update_email_unverifies:
  assumes "update_email new self d = Inr (self', d')"
  shows "self' = self\<lparr>unverified_email := Some new, mail_verified := False\<rparr> \<and>
         \<not> mail_verified self' \<and>
         vc_filter (pk self') EMAIL_VERIFICATION d' =
           [\<lparr>vc_user = the (pk self'), vc_type = EMAIL_VERIFICATION, vc_code = next_code d\<rparr>] \<and>
         length (vc_filter (pk self') EMAIL_VERIFICATION d') = 1 \<and>
         user_row.truncate self' \<in> set (users d')"
proof -
  let ?self1 = "self\<lparr>unverified_email := Some new\<rparr>"
  let ?d1 = "send_mail_change_notification' ?self1 d"
  from assms have "send_mail_verification_code ?self1 ?d1 = Inr (self', d')"
    by (simp add: update_email_def Let_def)
  from send_mail_verification_code_Inr [OF this] obtain d2 where
    u: "unverify_mail' ?self1 ?d1 = Inr (self', d2)"
    and d': "d' = send (prepare_mailverification_email self' (next_code ?d1)) d2"
    by blast
  have n: "next_code ?d1 = next_code d"
    by (simp add: send_mail_change_notification'_def send_def)
  from unverify_mail'_Inr(2) [OF u] have self': "self' = ?self1\<lparr>mail_verified := False\<rparr>" .
  from u obtain d3 where s: "save (?self1\<lparr>mail_verified := False\<rparr>) d3 = Inr (self', d2)"
    by (auto simp: unverify_mail'_def then_do_eq_Inr)
  have row: "user_row.truncate self' \<in> set (users d')"
    using save_stored [OF s] d' by (simp add: send_def)
  have "vc_filter (pk self') EMAIL_VERIFICATION d' =
        [\<lparr>vc_user = the (pk self'), vc_type = EMAIL_VERIFICATION, vc_code = next_code d\<rparr>]"
    using unverify_mail'_Inr(3) [OF u] self' d' n by simp
  with self' row show ?thesis by simp
qed

lemma update_email_ann:
  "update_email ''ann@y.org'' ann db_ann =
     Inr (ann\<lparr>unverified_email := Some ''ann@y.org'', mail_verified := False\<rparr>,
          db_ann\<lparr>users := [user_row.truncate (ann\<lparr>unverified_email := Some ''ann@y.org''\<rparr>)],
            codes := [\<lparr>vc_user = 1, vc_type = EMAIL_VERIFICATION, vc_code = 1\<rparr>],
            next_code := 2,
            outbox := outbox db_ann @
              [\<lparr>template = ''changemail_notice'', recipient = Some ''ann@x.com'', code_sent = None\<rparr>,
               \<lparr>template = ''mailverification'', recipient = Some ''ann@y.org'', code_sent = Some 1\<rparr>]\<rparr>)"
  by code_simp

theorem update_email_unverifies_witness:
  "update_email ''ann@y.org'' ann db_ann =
     Inr (ann\<lparr>unverified_email := Some ''ann@y.org'', mail_verified := False\<rparr>,
          db_ann\<lparr>users := [user_row.truncate (ann\<lparr>unverified_email := Some ''ann@y.org''\<rparr>)],
            codes := [\<lparr>vc_user = 1, vc_type = EMAIL_VERIFICATION, vc_code = 1\<rparr>],
            next_code := 2,
            outbox := outbox db_ann @
              [\<lparr>template = ''changemail_notice'', recipient = Some ''ann@x.com'', code_sent = None\<rparr>,
               \<lparr>template = ''mailverification'', recipient = Some ''ann@y.org'', code_sent = Some 1\<rparr>]\<rparr>) \<and>
   length (vc_filter (Some 1) EMAIL_VERIFICATION
     (db_ann\<lparr>users := [user_row.truncate (ann\<lparr>unverified_email := Some ''ann@y.org''\<rparr>)],
            codes := [\<lparr>vc_user = 1, vc_type = EMAIL_VERIFICATION, vc_code = 1\<rparr>],
            next_code := 2,
            outbox := outbox db_ann @
              [\<lparr>template = ''changemail_notice'', recipient = Some ''ann@x.com'', code_sent = None\<rparr>,
               \<lparr>template = ''mailverification'', recipient = Some ''ann@y.org'', code_sent = Some 1\<rparr>]\<rparr>)) = 1"
  using update_email_unverifies [OF update_email_ann] update_email_ann
  by (simp add: ann_def)

text \<open>
  C4: \<open>create_user\<close> called without an email (\<open>None\<close>) raises: \<open>_validate_email\<close>
  raises \<open>ValueError('The email field must be set')\<close>, the error of a missing email
  at creation, before anything is written.
\<close>

theorem create_user_without_email:
  "create_user None pw name extra_fields d = Inl (ValueError ''The email field must be set'')"
  by (simp add: create_user_def create_user'_def validate_email'_def)

lemma save_succeeds_users:
  assumes "users dx = users d'"
  shows "(\<exists>y. save x dx = Inr y) \<longleftrightarrow> (\<exists>y. save x d' = Inr y)"
  unfolding save_succeeds_iff using assms by simp

lemma save_again_users:
  assumes s: "save self d = Inr (self', d')" and stored: "pk self \<noteq> None"
    and x: "pk x = pk self" "email x = email self" "display_name x = display_name self"
    and dx: "users dx = users d'"
  shows "\<exists>d''. save x dx = Inr (x, d'')"
proof -
  from save_again [OF s stored x] have "\<exists>y. save x d' = Inr y" by blast
  then have "\<exists>y. save x dx = Inr y"
    by (rule save_succeeds_users [OF dx, THEN iffD2])
  then obtain x' dy where s': "save x dx = Inr (x', dy)" by auto
  from save_self(3) [OF s'] stored x have "x' = x" by simp
  with s' show ?thesis by blast
qed

lemma update_email_Inr:
  assumes "update_email new self d = Inr (self', d')"
  shows "pk self \<noteq> None"
    and "self' = self\<lparr>unverified_email := Some new, mail_verified := False\<rparr>"
    and "\<exists>d3 d2. save self' d3 = Inr (self', d2) \<and> users d' = users d2"
proof -
  let ?self1 = "self\<lparr>unverified_email := Some new\<rparr>"
  let ?d1 = "send_mail_change_notification' ?self1 d"
  from assms have "send_mail_verification_code ?self1 ?d1 = Inr (self', d')"
    by (simp add: update_email_def Let_def)
  from send_mail_verification_code_Inr [OF this] obtain d2 where
    u: "unverify_mail' ?self1 ?d1 = Inr (self', d2)"
    and d': "d' = send (prepare_mailverification_email self' (next_code ?d1)) d2"
    by blast
  from unverify_mail'_Inr(1) [OF u] show "pk self \<noteq> None" by simp
  from unverify_mail'_Inr(2) [OF u]
  show self': "self' = self\<lparr>unverified_email := Some new, mail_verified := False\<rparr>" by simp
  from u obtain d3 where "save (?self1\<lparr>mail_verified := False\<rparr>) d3 = Inr (self', d2)"
    by (auto simp: unverify_mail'_def then_do_eq_Inr)
  with self' have "save self' d3 = Inr (self', d2)" by simp
  moreover from d' have "users d' = users d2" by (simp add: send_def)
  ultimately show "\<exists>d3 d2. save self' d3 = Inr (self', d2) \<and> users d' = users d2" by blast
qed

text \<open>
  C8: \<open>update_email(new)\<close> followed at once by \<open>restore_email()\<close>. Whenever the
  first call returns, the second returns too, and it leaves the canonical email as it
  was before \<open>update_email\<close>, \<open>mail_verified\<close> true, no EMAIL_VERIFICATION code
  pending for the account, and the row of the account written.
\<close>

theorem update_email_then_restore_email:
  assumes "update_email new self d = Inr (self1, d1)"
  shows "\<exists>self2 d2. restore_email self1 d1 = Inr (self2, d2) \<and>
           email self2 = email self \<and> mail_verified self2 \<and>
           vc_filter (pk self2) EMAIL_VERIFICATION d2 = [] \<and>
           user_row.truncate self2 \<in> set (users d2)"
proof -
  let ?x = "self1\<lparr>unverified_email := email self1, mail_verified := True\<rparr>"
  let ?dx = "vc_delete (pk self1) EMAIL_VERIFICATION d1"
  from update_email_Inr [OF assms] obtain d3 d2 where
    stored: "pk self \<noteq> None"
    and self1: "self1 = self\<lparr>unverified_email := Some new, mail_verified := False\<rparr>"
    and s: "save self1 d3 = Inr (self1, d2)" and u: "users d1 = users d2"
    by blast
  from stored self1 have stored1: "pk self1 \<noteq> None" by simp
  have "users ?dx = users d2" using u by (simp add: vc_delete_def)
  with save_again_users [OF s stored1, of ?x ?dx]
  obtain d4 where s4: "save ?x ?dx = Inr (?x, d4)" by auto
  then have r: "restore_email self1 d1 = Inr (?x, d4)"
    by (simp add: restore_email_def Let_def)
  have "vc_filter (pk ?x) EMAIL_VERIFICATION d4 = vc_filter (pk ?x) EMAIL_VERIFICATION ?dx"
    by (rule vc_filter_save [OF s4])
  then have c: "vc_filter (pk ?x) EMAIL_VERIFICATION d4 = []" by simp
  have e: "email ?x = email self" using self1 by simp
  from r c e save_stored [OF s4] show ?thesis by simp
qed

theorem update_email_then_restore_email_witness:
  "\<exists>self2 d2.
     restore_email (ann\<lparr>unverified_email := Some ''ann@y.org'', mail_verified := False\<rparr>)
       (db_ann\<lparr>users := [user_row.truncate (ann\<lparr>unverified_email := Some ''ann@y.org''\<rparr>)],
            codes := [\<lparr>vc_user = 1, vc_type = EMAIL_VERIFICATION, vc_code = 1\<rparr>],
            next_code := 2,
            outbox := outbox db_ann @
              [\<lparr>template = ''changemail_notice'', recipient = Some ''ann@x.com'', code_sent = None\<rparr>,
               \<lparr>template = ''mailverification'', recipient = Some ''ann@y.org'', code_sent = Some 1\<rparr>]\<rparr>)
       = Inr (self2, d2) \<and>
     email self2 = Some ''ann@x.com'' \<and> mail_verified self2 \<and>
     vc_filter (pk self2) EMAIL_VERIFICATION d2 = [] \<and>
     user_row.truncate self2 \<in> set (users d2)"
  using update_email_then_restore_email [OF update_email_ann]
  by (simp add: ann_def)

text \<open>
  One call of \<open>reset_password\<close> on a stored account returns; it removes the
  PASSWORD_RESET codes of the account from the code table and appends the new code,
  which carries the counter value the call found.
\<close>

lemma reset_password_stored:
  assumes "pk self = Some i"
  shows "\<exists>d'. reset_password self d = Inr (self, d') \<and>
           codes d' = codes (vc_delete (Some i) PASSWORD_RESET d) @
             [\<lparr>vc_user = i, vc_type = PASSWORD_RESET, vc_code = next_code d\<rparr>] \<and>
           next_code d' = Suc (next_code d) \<and>
           users d' = users d"
  using assms
  by (simp add: reset_password_def Let_def vc_create_def vc_get_def vc_filter_def
        vc_delete_def send_def)

text \<open>
  C9: for a stored account, any number of \<open>reset_password()\<close> calls in a row, one or
  more, all return. Afterwards the code table is the one before the calls without the
  PASSWORD_RESET codes the account had, followed by one new code, the one the last call
  issued (it carries the counter value that call found): each call deletes the codes of
  that type, the one of the call before included, before it issues its own. So exactly
  one PASSWORD_RESET code exists for the account.
\<close>

theorem reset_password_single_code:
  assumes "pk self = Some i"
  shows "\<exists>d'. run (replicate (Suc n) Reset_password) self d = Inr (self, d') \<and>
           codes d' = codes (vc_delete (Some i) PASSWORD_RESET d) @
             [\<lparr>vc_user = i, vc_type = PASSWORD_RESET, vc_code = next_code d + n\<rparr>] \<and>
           next_code d' = next_code d + Suc n \<and>
           vc_filter (Some i) PASSWORD_RESET d' =
             [\<lparr>vc_user = i, vc_type = PASSWORD_RESET, vc_code = next_code d + n\<rparr>] \<and>
           length (vc_filter (Some i) PASSWORD_RESET d') = 1"
proof -
  have run: "\<exists>d'. run (replicate (Suc n) Reset_password) self d = Inr (self, d') \<and>
           codes d' = codes (vc_delete (Some i) PASSWORD_RESET d) @
             [\<lparr>vc_user = i, vc_type = PASSWORD_RESET, vc_code = next_code d + n\<rparr>] \<and>
           next_code d' = next_code d + Suc n"
  proof (induction n arbitrary: d)
    case 0
    from reset_password_stored [OF assms, of d] show ?case by auto
  next
    case (Suc n)
    from reset_password_stored [OF assms, of d] obtain d1 where
      first: "reset_password self d = Inr (self, d1)"
      and c1: "codes d1 = codes (vc_delete (Some i) PASSWORD_RESET d) @
             [\<lparr>vc_user = i, vc_type = PASSWORD_RESET, vc_code = next_code d\<rparr>]"
      and n1: "next_code d1 = Suc (next_code d)"
      by blast
    from Suc.IH [of d1] obtain d' where
      rest: "run (replicate (Suc n) Reset_password) self d1 = Inr (self, d')"
      and c': "codes d' = codes (vc_delete (Some i) PASSWORD_RESET d1) @
             [\<lparr>vc_user = i, vc_type = PASSWORD_RESET, vc_code = next_code d1 + n\<rparr>]"
      and n': "next_code d' = next_code d1 + Suc n"
      by blast
    have "codes (vc_delete (Some i) PASSWORD_RESET d1) =
          codes (vc_delete (Some i) PASSWORD_RESET d)"
      using c1 by (auto simp: vc_delete_def)
    with c' n1 n' have "codes d' = codes (vc_delete (Some i) PASSWORD_RESET d) @
             [\<lparr>vc_user = i, vc_type = PASSWORD_RESET, vc_code = next_code d + Suc n\<rparr>]"
      and "next_code d' = next_code d + Suc (Suc n)"
      by simp_all
    moreover from first rest
    have "run (replicate (Suc (Suc n)) Reset_password) self d = Inr (self, d')" by simp
    ultimately show ?case by blast
  qed
  then obtain d' where r: "run (replicate (Suc n) Reset_password) self d = Inr (self, d')"
    and c: "codes d' = codes (vc_delete (Some i) PASSWORD_RESET d) @
             [\<lparr>vc_user = i, vc_type = PASSWORD_RESET, vc_code = next_code d + n\<rparr>]"
    and k: "next_code d' = next_code d + Suc n"
    by blast
  from c have "vc_filter (Some i) PASSWORD_RESET d' =
             [\<lparr>vc_user = i, vc_type = PASSWORD_RESET, vc_code = next_code d + n\<rparr>]"
    by (simp add: vc_filter_def vc_delete_def)
  with r c k show ?thesis by simp
qed

theorem reset_password_single_code_witness:
  "pk ann = Some 1 \<and>
   (\<exists>d'. run (replicate (Suc 2) Reset_password) ann db_ann = Inr (ann, d') \<and>
      codes d' = [\<lparr>vc_user = 1, vc_type = EMAIL_VERIFICATION, vc_code = 0\<rparr>,
                  \<lparr>vc_user = 1, vc_type = PASSWORD_RESET, vc_code = 3\<rparr>] \<and>
      next_code d' = 4 \<and>
      vc_filter (Some 1) PASSWORD_RESET d' =
        [\<lparr>vc_user = 1, vc_type = PASSWORD_RESET, vc_code = 3\<rparr>] \<and>
      length (vc_filter (Some 1) PASSWORD_RESET d') = 1)"
proof -
  have h: "pk ann = Some 1" by (simp add: ann_def)
  have c0: "codes (vc_delete (Some 1) PASSWORD_RESET db_ann) =
      [\<lparr>vc_user = 1, vc_type = EMAIL_VERIFICATION, vc_code = 0\<rparr>]"
    by (simp add: db_ann_def vc_delete_def)
  have n0: "next_code db_ann = 1" by (simp add: db_ann_def)
  from reset_password_single_code [OF h, of 2 db_ann] obtain d' where
    r: "run (replicate (Suc 2) Reset_password) ann db_ann = Inr (ann, d')"
    and c: "codes d' = codes (vc_delete (Some 1) PASSWORD_RESET db_ann) @
             [\<lparr>vc_user = 1, vc_type = PASSWORD_RESET, vc_code = next_code db_ann + 2\<rparr>]"
    and k: "next_code d' = next_code db_ann + Suc 2"
    and f: "vc_filter (Some 1) PASSWORD_RESET d' =
             [\<lparr>vc_user = 1, vc_type = PASSWORD_RESET, vc_code = next_code db_ann + 2\<rparr>]"
    and l: "length (vc_filter (Some 1) PASSWORD_RESET d') = 1"
    by blast
  have three: "next_code db_ann + 2 = 3" and four: "next_code db_ann + Suc 2 = 4"
    by (simp_all add: n0)
  have c': "codes d' = [\<lparr>vc_user = 1, vc_type = EMAIL_VERIFICATION, vc_code = 0\<rparr>,
                  \<lparr>vc_user = 1, vc_type = PASSWORD_RESET, vc_code = 3\<rparr>]"
    by (simp only: c c0 three append.simps)
  have k': "next_code d' = 4" by (simp only: k four)
  have f': "vc_filter (Some 1) PASSWORD_RESET d' =
        [\<lparr>vc_user = 1, vc_type = PASSWORD_RESET, vc_code = 3\<rparr>]"
    by (simp only: f three)
  from h r c' k' f' l show ?thesis by blast
qed

lemma map_replace_same:
  assumes "\<forall>r \<in> set xs. pk r = k \<longrightarrow> r = t"
  shows "map (\<lambda>r. if pk r = k then t else r) xs = xs"
  using assms by (induction xs) auto

text \<open>Saving a stored instance a second time changes nothing.\<close>

lemma save_idem:
  assumes s: "save self d = Inr (self', d')" and stored: "pk self \<noteq> None"
  shows "save self' d' = Inr (self', d')"
proof -
  from save_self(3) [OF s stored] have eq: "self' = self" .
  from save_again [OF s stored, of self] obtain d'' where s2: "save self d' = Inr (self, d'')"
    by auto
  from stored obtain i where i: "pk self = Some i" by auto
  have own: "\<forall>r \<in> set (users d'). pk r = Some i \<longrightarrow> r = user_row.truncate self"
    using save_own_row [OF s] eq i by auto
  have row: "\<exists>r \<in> set (users d'). pk r = Some i"
    using save_stored [OF s] eq i by (intro bexI [of _ "user_row.truncate self"]) simp_all
  from s2 i row have "d'' = d'\<lparr>users :=
      map (\<lambda>r. if pk r = Some i then user_row.truncate self else r) (users d')\<rparr>"
    by (auto simp: save_def split: if_splits)
  also have "\<dots> = d'" by (simp add: map_replace_same [OF own])
  finally show ?thesis using s2 eq by simp
qed

lemma vc_delete_none: "vc_filter u t d = [] \<Longrightarrow> vc_delete u t d = d"
proof -
  assume "vc_filter u t d = []"
  then have "\<forall>c \<in> set (codes d). \<not> (Some (vc_user c) = u \<and> vc_type c = t)"
    by (simp add: vc_filter_def filter_empty_conv)
  then have "filter (\<lambda>c. \<not> (Some (vc_user c) = u \<and> vc_type c = t)) (codes d) = codes d"
    by (simp add: filter_id_conv)
  then show ?thesis by (simp add: vc_delete_def)
qed

lemma verify_mail_ann: "verify_mail ann db_ann = Inr (ann_verified, db_verified)"
  by code_simp

text \<open>
  C2, as the code has it: \<open>verify_mail\<close> asks for no pending code. On a stored account,
  whenever it returns it has promoted \<open>unverified_email\<close> to the canonical email and
  set \<open>mail_verified\<close>, no EMAIL_VERIFICATION code of the account is left (it deletes
  those there are, none included) and the row is written; and a second call, with no
  new code issued in between, returns as well and changes nothing.
\<close>

theorem verify_mail_without_precondition:
  assumes v: "verify_mail self d = Inr (self', d')" and stored: "pk self \<noteq> None"
  shows "self' = self\<lparr>email := unverified_email self, mail_verified := True\<rparr> \<and>
         vc_filter (pk self') EMAIL_VERIFICATION d' = [] \<and>
         user_row.truncate self' \<in> set (users d') \<and>
         verify_mail self' d' = Inr (self', d')"
proof -
  let ?x = "self\<lparr>email := unverified_email self, mail_verified := True\<rparr>"
  let ?d1 = "vc_delete (pk self) EMAIL_VERIFICATION d"
  from v have s: "save ?x ?d1 = Inr (self', d')"
    by (simp add: verify_mail_def Let_def)
  from stored have sx: "pk ?x \<noteq> None" by simp
  from save_self(3) [OF s sx] have self': "self' = ?x" .
  have "vc_filter (pk self) EMAIL_VERIFICATION d' = vc_filter (pk self) EMAIL_VERIFICATION ?d1"
    by (rule vc_filter_save [OF s])
  then have c: "vc_filter (pk self') EMAIL_VERIFICATION d' = []"
    using self' by simp
  have again: "self'\<lparr>email := unverified_email self', mail_verified := True\<rparr> = self'"
    using self' by simp
  have "verify_mail self' d' = save self' d'"
    using vc_delete_none [OF c] again by (simp add: verify_mail_def Let_def)
  also have "\<dots> = Inr (self', d')" by (rule save_idem [OF s sx])
  finally show ?thesis using self' c save_stored [OF s] by simp
qed

theorem verify_mail_without_precondition_witness:
  "verify_mail ann db_ann = Inr (ann_verified, db_verified) \<and> pk ann \<noteq> None \<and>
   ann_verified = ann\<lparr>email := unverified_email ann, mail_verified := True\<rparr> \<and>
   vc_filter (pk ann_verified) EMAIL_VERIFICATION db_verified = [] \<and>
   user_row.truncate ann_verified \<in> set (users db_verified) \<and>
   verify_mail ann_verified db_verified = Inr (ann_verified, db_verified)"
proof -
  have h: "pk ann \<noteq> None" by (simp add: ann_def)
  from verify_mail_without_precondition [OF verify_mail_ann h] verify_mail_ann h
  show ?thesis by simp
qed

text \<open>
  C2 as stated fails: Ann is created, \<open>verify_mail\<close> is called once, so that no code
  is pending, and the second call returns normally instead of raising NotFound.
\<close>

theorem verify_mail_twice_counterexample:
  "create_user (Some ''ann@X.com'') (Some ''secret'') (Some ''Ann'') [] db0 = Inr (ann, db_ann) \<and>
   verify_mail ann db_ann = Inr (ann_verified, db_verified) \<and>
   vc_filter (pk ann_verified) EMAIL_VERIFICATION db_verified = [] \<and>
   verify_mail ann_verified db_verified = Inr (ann_verified, db_verified) \<and>
   verify_mail ann_verified db_verified \<noteq> Inl DoesNotExist"
  by code_simp

text \<open>
  C7, as the code has it: \<open>update_language\<close> sets the language tag of the instance in
  memory and nothing else: every other field of the instance, the user table, the
  verification codes and the rest of the database are as before. No row is written.
\<close>

theorem update_language_in_memory:
  "update_language lang self d = Inr (self\<lparr>language := lang\<rparr>, d)"
  by (simp add: update_language_def)

text \<open>
  C7 as stated fails: after \<open>update_language('de')\<close> on Ann the database is the one
  before the call, and the row of Ann still holds the language \<open>en\<close>.
\<close>

theorem update_language_not_committed_counterexample:
  "update_language ''de'' ann db_ann = Inr (ann\<lparr>language := ''de''\<rparr>, db_ann) \<and>
   get_by_natural_key ''ann@x.com'' db_ann = Inr (user_row.truncate ann) \<and>
   language (user_row.truncate ann) = ''en''"
  by code_simp

lemma fold_membership_delete_frame:
  "users (fold (\<lambda>g. membership_delete g u) gs d) = users d"
  "codes (fold (\<lambda>g. membership_delete g u) gs d) = codes d"
  by (induction gs arbitrary: d) (simp_all add: membership_delete_def)

lemma delete_photo_frame:
  "users (snd (delete_photo s d)) = users d"
  "codes (snd (delete_photo s d)) = codes d"
  "memberships (snd (delete_photo s d)) = memberships d"
  by (simp_all add: delete_photo_def photo_delete_def delete_all_created_images_def
        split: option.splits)

lemma delete_photo_self:
  "fst (delete_photo s d) = s\<lparr>photo := None\<rparr>"
  by (simp add: delete_photo_def photo_delete_def split: option.splits)

lemma delete_photo_db:
  "photo s' = photo s \<Longrightarrow> snd (delete_photo s' d) = snd (delete_photo s d)"
  by (simp add: delete_photo_def photo_delete_def delete_all_created_images_def
        split: option.splits)

text \<open>\<open>delete_\<close> as one save: the instance it saves and the database it saves into.\<close>

lemma delete'_eq:
  "delete' now self d =
     then_do
       (save (self\<lparr>description := '''', password := Unusable, mail := Some None,
                   is_active := False, is_staff := False, mail_verified := False,
                   unverified_email := None, deleted_at := Some now, deleted := True,
                   photo := None\<rparr>)
             (snd (delete_photo self
                (fold (\<lambda>g. membership_delete g (pk self)) (groups_containing (pk self) d) d))))
       (\<lambda>(s, d3). Inr (s, send (prepare_email ''accountdelete_success'' s None) d3))"
proof -
  let ?d1 = "fold (\<lambda>g. membership_delete g (pk self)) (groups_containing (pk self) d) d"
  let ?s9 = "self\<lparr>description := '''', password := Unusable, mail := Some None,
                   is_active := False, is_staff := False, mail_verified := False,
                   unverified_email := None, deleted_at := Some now, deleted := True\<rparr>"
  have "delete_photo ?s9 ?d1 = (fst (delete_photo ?s9 ?d1), snd (delete_photo ?s9 ?d1))"
    by simp
  also have "fst (delete_photo ?s9 ?d1) = ?s9\<lparr>photo := None\<rparr>"
    by (rule delete_photo_self)
  also have "snd (delete_photo ?s9 ?d1) = snd (delete_photo self ?d1)"
    by (rule delete_photo_db) simp
  finally have "delete_photo ?s9 ?d1 = (?s9\<lparr>photo := None\<rparr>, snd (delete_photo self ?d1))" .
  then show ?thesis
    by (simp add: delete'_def Let_def set_unusable_password_def)
qed

lemma delete'_Inr:
  assumes "delete' now self d = Inr (self', d')"
  shows "\<exists>dx d3. save (self\<lparr>description := '''', password := Unusable, mail := Some None,
                   is_active := False, is_staff := False, mail_verified := False,
                   unverified_email := None, deleted_at := Some now, deleted := True,
                   photo := None\<rparr>) dx = Inr (self', d3) \<and>
           users dx = users d \<and> users d' = users d3"
proof -
  let ?x = "self\<lparr>description := '''', password := Unusable, mail := Some None,
                   is_active := False, is_staff := False, mail_verified := False,
                   unverified_email := None, deleted_at := Some now, deleted := True,
                   photo := None\<rparr>"
  let ?dx = "snd (delete_photo self
                (fold (\<lambda>g. membership_delete g (pk self)) (groups_containing (pk self) d) d))"
  from assms obtain d3 where s: "save ?x ?dx = Inr (self', d3)"
    and d': "d' = send (prepare_email ''accountdelete_success'' self' None) d3"
    by (auto simp: delete'_eq then_do_eq_Inr)
  have "users ?dx = users d"
    by (simp add: delete_photo_frame fold_membership_delete_frame)
  moreover from d' have "users d' = users d3" by (simp add: send_def)
  ultimately show ?thesis using s by blast
qed

lemma delete'_fields:
  assumes "delete' now self d = Inr (self', d')"
  shows "deleted self'" and "deleted_at self' = Some now" and "email self' = email self"
    and "description self' = ''''" and "password self' = Unusable"
    and "\<not> is_active self'" and "\<not> is_staff self'" and "\<not> mail_verified self'"
    and "unverified_email self' = None" and "photo self' = None"
    and "display_name self' = display_name self"
    and "pk self \<noteq> None \<Longrightarrow> pk self' = pk self"
proof -
  from delete'_Inr [OF assms] obtain dx d3 where
    s: "save (self\<lparr>description := '''', password := Unusable, mail := Some None,
                   is_active := False, is_staff := False, mail_verified := False,
                   unverified_email := None, deleted_at := Some now, deleted := True,
                   photo := None\<rparr>) dx = Inr (self', d3)"
    by blast
  note e = save_self(1) [OF s]
  show "deleted self'" by (subst e) simp
  show "deleted_at self' = Some now" by (subst e) simp
  show "email self' = email self" by (subst e) simp
  show "description self' = ''''" by (subst e) simp
  show "password self' = Unusable" by (subst e) simp
  show "\<not> is_active self'" by (subst e) simp
  show "\<not> is_staff self'" by (subst e) simp
  show "\<not> mail_verified self'" by (subst e) simp
  show "unverified_email self' = None" by (subst e) simp
  show "photo self' = None" by (subst e) simp
  show "display_name self' = display_name self" by (subst e) simp
  show "pk self' = pk self" if "pk self \<noteq> None"
    using save_self(3) [OF s] that by simp
qed

text \<open>
  C5, as the code has it: \<open>delete_\<close> assigns \<open>deleted_at = timezone.now()\<close> on every
  call. On a stored account, whenever a first call made at time \<open>t1\<close> returns, a second
  call made at time \<open>t2\<close> returns too; \<open>deleted\<close> is true after both, \<open>deleted_at\<close>
  is \<open>t1\<close> after the first and \<open>t2\<close> after the second.
\<close>

theorem delete_twice:
  assumes first: "delete' t1 self d = Inr (self1, d1)" and stored: "pk self \<noteq> None"
  shows "\<exists>self2 d2. delete' t2 self1 d1 = Inr (self2, d2) \<and>
           deleted self1 \<and> deleted self2 \<and>
           deleted_at self1 = Some t1 \<and> deleted_at self2 = Some t2"
proof -
  let ?x = "self\<lparr>description := '''', password := Unusable, mail := Some None,
                   is_active := False, is_staff := False, mail_verified := False,
                   unverified_email := None, deleted_at := Some t1, deleted := True,
                   photo := None\<rparr>"
  let ?y = "self1\<lparr>description := '''', password := Unusable, mail := Some None,
                   is_active := False, is_staff := False, mail_verified := False,
                   unverified_email := None, deleted_at := Some t2, deleted := True,
                   photo := None\<rparr>"
  let ?dy = "snd (delete_photo self1
                (fold (\<lambda>g. membership_delete g (pk self1)) (groups_containing (pk self1) d1) d1))"
  from delete'_Inr [OF first] obtain dx d3 where
    s: "save ?x dx = Inr (self1, d3)" and u: "users d1 = users d3"
    by blast
  from stored have sx: "pk ?x \<noteq> None" by simp
  from save_self(3) [OF s sx] have self1: "self1 = ?x" .
  have "users ?dy = users d1"
    by (simp add: delete_photo_frame fold_membership_delete_frame)
  with u have uy: "users ?dy = users d3" by simp
  have "\<exists>d''. save ?y ?dy = Inr (?y, d'')"
    by (rule save_again_users [OF s sx _ _ _ uy]) (simp_all add: self1)
  then obtain d4 where "save ?y ?dy = Inr (?y, d4)" by blast
  then have second:
    "delete' t2 self1 d1 = Inr (?y, send (prepare_email ''accountdelete_success'' ?y None) d4)"
    by (simp add: delete'_eq)
  from delete'_fields(1,2) [OF first] delete'_fields(1,2) [OF second] second
  show ?thesis by blast
qed

lemma delete_bea: "delete' 7 bea db_bea = Inr (bea_deleted, db_bea_deleted)"
  by code_simp

theorem delete_twice_witness:
  "delete' 7 bea db_bea = Inr (bea_deleted, db_bea_deleted) \<and> pk bea \<noteq> None \<and>
   (\<exists>self2 d2. delete' 9 bea_deleted db_bea_deleted = Inr (self2, d2) \<and>
      deleted bea_deleted \<and> deleted self2 \<and>
      deleted_at bea_deleted = Some 7 \<and> deleted_at self2 = Some 9)"
proof -
  have h: "pk bea \<noteq> None" by (simp add: bea_def)
  from delete_twice [OF delete_bea h, of 9] delete_bea h show ?thesis by simp
qed

text \<open>
  C5 as stated fails: Bea is deleted at time 7 and again at time 9; the second call
  overwrites \<open>deleted_at\<close>, in the instance and in the row.
\<close>

theorem delete_twice_counterexample:
  "delete' 7 bea db_bea = Inr (bea_deleted, db_bea_deleted) \<and>
   deleted_at bea_deleted = Some 7 \<and>
   delete' 9 bea_deleted db_bea_deleted =
     Inr (bea_deleted\<lparr>deleted_at := Some 9\<rparr>,
          db_bea_deleted\<lparr>users := [user_row.truncate ann,
                     user_row.truncate (bea_deleted\<lparr>deleted_at := Some 9\<rparr>)],
            outbox := [\<lparr>template = ''accountdelete_success'', recipient = Some ''bea@x.com'',
                         code_sent = None\<rparr>,
                       \<lparr>template = ''accountdelete_success'', recipient = Some ''bea@x.com'',
                         code_sent = None\<rparr>]\<rparr>) \<and>
   deleted_at (bea_deleted\<lparr>deleted_at := Some 9\<rparr>) \<noteq> deleted_at bea_deleted"
  by code_simp

text \<open>
  C1 at a concrete account: \<open>delete_\<close> at time 7 on Bea, who has a photo with two size
  variants and is a member of two groups. Everything the claim lists happens (the
  memberships, the description, the password, the pending address, the flags, the
  photo and its variants, \<open>deleted\<close> and \<open>deleted_at\<close>) except that the canonical
  email is still there, in the instance and in the row, and still finds the account.
\<close>

theorem delete_keeps_email:
  "delete' 7 bea db_bea = Inr (bea_deleted, db_bea_deleted) \<and>
   email bea = Some ''bea@x.com'' \<and>
   email bea_deleted = Some ''bea@x.com'' \<and>
   map email (users db_bea_deleted) = [Some ''ann@x.com'', Some ''bea@x.com''] \<and>
   get_by_natural_key ''bea@x.com'' db_bea_deleted = Inr (user_row.truncate bea_deleted)"
  by code_simp

lemma fold_set_field_kept:
  "pk (fold set_field fs u) = pk u"
  "email (fold set_field fs u) = email u"
  "display_name (fold set_field fs u) = display_name u"
proof (induction fs arbitrary: u)
  case Nil
  { case 1 show ?case by simp }
  { case 2 show ?case by simp }
  { case 3 show ?case by simp }
next
  case (Cons f fs)
  { case 1 show ?case using Cons(1) [of "set_field f u"] by (cases f) simp_all }
  { case 2 show ?case using Cons(2) [of "set_field f u"] by (cases f) simp_all }
  { case 3 show ?case using Cons(3) [of "set_field f u"] by (cases f) simp_all }
qed

lemma model_fields:
  "pk (model e active name fs) = None"
  "email (model e active name fs) = e"
  "display_name (model e active name fs) = name"
  "unverified_email (model e active name (fs @ [Unverified_email x])) = x"
  by (simp_all add: model_def fold_set_field_kept defaults_def)

lemma save_new:
  assumes "save self d = Inr (self', d')" and "pk self = None"
  shows "self' = self\<lparr>pk := Some (fresh_pk (users d))\<rparr>"
    and "d' = d\<lparr>users := users d @ [user_row.truncate self']\<rparr>"
  using assms by (auto simp: save_def Let_def split: if_splits)

lemma save_update:
  assumes "save self d = Inr (self', d')" and "pk self = Some i"
    and "\<exists>r \<in> set (users d). pk r = Some i"
  shows "users d' = map (\<lambda>r. if pk r = Some i then user_row.truncate self else r) (users d)"
  using assms by (auto simp: save_def split: if_splits)

lemma unverify_mail'_save:
  assumes "unverify_mail' self d = Inr (self', d')"
  shows "\<exists>d2. save (self\<lparr>mail_verified := False\<rparr>) d2 = Inr (self', d') \<and> users d2 = users d"
proof -
  from assms obtain d2 where
    c: "vc_create (pk self) EMAIL_VERIFICATION (vc_delete (pk self) EMAIL_VERIFICATION d) = Inr d2"
    and s: "save (self\<lparr>mail_verified := False\<rparr>) d2 = Inr (self', d')"
    by (auto simp: unverify_mail'_def then_do_eq_Inr)
  from vc_create_Inr [OF c] have "users d2 = users d"
    by (auto simp: vc_delete_def)
  with s show ?thesis by blast
qed

lemma send_welcome_mail'_Inr:
  assumes "send_welcome_mail' self d = Inr (self', d')"
  shows "\<exists>d1. unverify_mail' self d = Inr (self', d1) \<and>
           d' = send (prepare_mailverification_email self' (next_code d)) d1"
proof -
  from assms obtain self1 d1 c where
    u: "unverify_mail' self d = Inr (self1, d1)"
    and g: "vc_get (pk self1) EMAIL_VERIFICATION d1 = Inr c"
    and r: "self' = self1" "d' = send (prepare_mailverification_email self1 (vc_code c)) d1"
    by (auto simp: send_welcome_mail'_def then_do_eq_Inr)
  from unverify_mail'_Inr(2) [OF u] have "pk self1 = pk self" by simp
  with g unverify_mail'_Inr(3) [OF u] have "vc_code c = next_code d"
    by (auto simp: vc_get_def)
  with u r show ?thesis by simp
qed

lemma map_replace_absent:
  assumes "\<forall>r \<in> set xs. pk r \<noteq> k"
  shows "map (\<lambda>r. if pk r = k then t else r) xs = xs"
  using assms by (induction xs) auto

lemma create_user'_Inr:
  assumes "create_user' (Some E) pw name active extra_fields d = Inr (u, d')"
  shows "pk u = Some (fresh_pk (users d))"
    and "email u = Some (normalize_email E)"
    and "unverified_email u = Some (normalize_email E)"
    and "\<not> mail_verified u"
    and "users d' = users d @ [user_row.truncate u]"
    and "vc_filter (pk u) EMAIL_VERIFICATION d' =
           [\<lparr>vc_user = fresh_pk (users d), vc_type = EMAIL_VERIFICATION, vc_code = next_code d\<rparr>]"
proof -
  let ?e = "normalize_email E"
  let ?u1 = "set_password pw (model (Some ?e) active name (extra_fields @ [Unverified_email (Some ?e)]))"
  let ?k = "fresh_pk (users d)"
  from assms obtain u2 d1 where s: "save ?u1 d = Inr (u2, d1)"
    and w: "send_welcome_mail' u2 d1 = Inr (u, d')"
    by (auto simp: create_user'_def validate_email'_def then_do_eq_Inr Let_def)
  have new: "pk ?u1 = None" by (simp add: set_password_def model_fields)
  note u2 = save_new(1) [OF s new] and d1 = save_new(2) [OF s new]
  from send_welcome_mail'_Inr [OF w] obtain d2 where
    un: "unverify_mail' u2 d1 = Inr (u, d2)"
    and d': "d' = send (prepare_mailverification_email u (next_code d1)) d2"
    by blast
  note u = unverify_mail'_Inr(2) [OF un]
  have pk2: "pk u2 = Some ?k" by (subst u2) simp
  show pk: "pk u = Some ?k" using u pk2 by simp
  show "email u = Some ?e"
    by (subst u, subst u2) (simp add: set_password_def model_fields)
  show "unverified_email u = Some ?e"
    by (subst u, subst u2) (simp add: set_password_def model_fields)
  show "\<not> mail_verified u" by (subst u) simp
  from unverify_mail'_save [OF un] obtain d3 where
    s3: "save (u2\<lparr>mail_verified := False\<rparr>) d3 = Inr (u, d2)" and u3: "users d3 = users d1"
    by blast
  have users1: "users d1 = users d @ [user_row.truncate u2]" by (subst d1) simp
  have row: "\<exists>r \<in> set (users d3). pk r = Some ?k"
    using u3 users1 pk2 by (intro bexI [of _ "user_row.truncate u2"]) simp_all
  have "users d2 =
      map (\<lambda>r. if pk r = Some ?k then user_row.truncate (u2\<lparr>mail_verified := False\<rparr>) else r)
        (users d3)"
    by (rule save_update [OF s3 _ row]) (simp add: pk2)
  also have "\<dots> =
      map (\<lambda>r. if pk r = Some ?k then user_row.truncate u else r) (users d) @
        [user_row.truncate u]"
    using u3 users1 pk2 u by simp
  also have "map (\<lambda>r. if pk r = Some ?k then user_row.truncate u else r) (users d) = users d"
    by (rule map_replace_absent) (simp add: fresh_pk_fresh)
  finally show "users d' = users d @ [user_row.truncate u]"
    using d' by (simp add: send_def)
  have "vc_filter (pk u) EMAIL_VERIFICATION d' = vc_filter (pk u2) EMAIL_VERIFICATION d2"
    using d' pk pk2 by simp
  also have "\<dots> = [\<lparr>vc_user = the (pk u2), vc_type = EMAIL_VERIFICATION, vc_code = next_code d1\<rparr>]"
    by (rule unverify_mail'_Inr(3) [OF un])
  also have "next_code d1 = next_code d" by (subst d1) simp
  finally show "vc_filter (pk u) EMAIL_VERIFICATION d' =
           [\<lparr>vc_user = ?k, vc_type = EMAIL_VERIFICATION, vc_code = next_code d\<rparr>]"
    using pk2 by simp
qed

lemma create_ann:
  "create_user (Some ''ann@X.com'') (Some ''secret'') (Some ''Ann'') [] db0 = Inr (ann, db_ann)"
  by code_simp

lemma create_bob:
  "create_user (Some ''bob@X.com'') (Some ''pw'') (Some ''Bob'') [] db_ann = Inr (bob, db_bob)"
  by code_simp

text \<open>
  C6, as the code has it, for ASCII addresses. Whenever \<open>create_user(E, ...)\<close> returns,
  the normalized \<open>E\<close> is in both email slots of the new account, \<open>mail_verified\<close> is
  false, the row of the account has been appended to the user table, and exactly one
  EMAIL_VERIFICATION code exists for it. If moreover \<open>E\<close> has no whitespace at its
  ends and the emails stored before the call are ASCII and none of them equals \<open>E\<close>
  up to case, then the lookup by \<open>E.upper()\<close>, and by any ASCII key equal to \<open>E\<close> up
  to case, returns the new account.
\<close>

theorem create_user_then_lookup:
  assumes c: "create_user (Some E) pw name extra_fields d = Inr (u, d')"
    and a: "isascii E"
  shows "email u = Some (normalize_email E) \<and>
         unverified_email u = Some (normalize_email E) \<and>
         \<not> mail_verified u \<and>
         users d' = users d @ [user_row.truncate u] \<and>
         length (vc_filter (pk u) EMAIL_VERIFICATION d') = 1 \<and>
         (strip E = E \<and>
          (\<forall>r \<in> set (users d). \<forall>x. email r = Some x \<longrightarrow> isascii x \<and> \<not> iexact x E) \<longrightarrow>
            get_by_natural_key (upper E) d' = Inr (user_row.truncate u) \<and>
            (\<forall>K. isascii K \<and> iexact K E \<longrightarrow>
               get_by_natural_key K d' = Inr (user_row.truncate u)))"
proof -
  from c have c': "create_user' (Some E) pw name True extra_fields d = Inr (u, d')"
    by (simp add: create_user_def)
  note f = create_user'_Inr [OF c']
  have look: "get_by_natural_key K d' = Inr (user_row.truncate u)"
    if s: "strip E = E"
      and o: "\<forall>r \<in> set (users d). \<forall>x. email r = Some x \<longrightarrow> isascii x \<and> \<not> iexact x E"
      and k: "iexact K E" for K
  proof -
    from k have uk: "upper K = upper E" by (simp add: iexact_def)
    have "filter (\<lambda>r. case email r of None \<Rightarrow> False | Some x \<Rightarrow> iexact x K) (users d) = []"
      using o uk by (auto simp: filter_empty_conv iexact_def split: option.splits)
    moreover have "iexact (normalize_email E) K"
      using upper_normalize_email [OF s] uk by (simp add: iexact_def)
    ultimately have "filter_by_similar_email K d' = [user_row.truncate u]"
      using f(2,5) by (simp add: filter_by_similar_email_def)
    then show ?thesis by (simp add: get_by_natural_key_def)
  qed
  have "iexact (upper E) E" by (simp add: iexact_def upper_idem)
  with look have "strip E = E \<and>
          (\<forall>r \<in> set (users d). \<forall>x. email r = Some x \<longrightarrow> isascii x \<and> \<not> iexact x E) \<longrightarrow>
            get_by_natural_key (upper E) d' = Inr (user_row.truncate u) \<and>
            (\<forall>K. isascii K \<and> iexact K E \<longrightarrow>
               get_by_natural_key K d' = Inr (user_row.truncate u))"
    by blast
  moreover have "length (vc_filter (pk u) EMAIL_VERIFICATION d') = 1"
    by (simp add: f(6))
  ultimately show ?thesis using f(2,3,4,5) by blast
qed

theorem create_user_then_lookup_witness:
  "create_user (Some ''bob@X.com'') (Some ''pw'') (Some ''Bob'') [] db_ann = Inr (bob, db_bob) \<and>
   isascii ''bob@X.com'' \<and>
   strip ''bob@X.com'' = ''bob@X.com'' \<and>
   map email (users db_ann) = [Some ''ann@x.com''] \<and>
   isascii ''ann@x.com'' \<and> \<not> iexact ''ann@x.com'' ''bob@X.com'' \<and>
   isascii ''Bob@x.COM'' \<and> iexact ''Bob@x.COM'' ''bob@X.com'' \<and>
   email bob = Some (normalize_email ''bob@X.com'') \<and>
   unverified_email bob = Some (normalize_email ''bob@X.com'') \<and>
   \<not> mail_verified bob \<and>
   users db_bob = users db_ann @ [user_row.truncate bob] \<and>
   length (vc_filter (pk bob) EMAIL_VERIFICATION db_bob) = 1 \<and>
   get_by_natural_key (upper ''bob@X.com'') db_bob = Inr (user_row.truncate bob) \<and>
   get_by_natural_key ''Bob@x.COM'' db_bob = Inr (user_row.truncate bob)"
proof -
  have a: "isascii ''bob@X.com''" by code_simp
  have s: "strip ''bob@X.com'' = ''bob@X.com''" by code_simp
  have e: "map email (users db_ann) = [Some ''ann@x.com'']" by (simp add: db_ann_def ann_def)
  have x: "isascii ''ann@x.com''" "\<not> iexact ''ann@x.com'' ''bob@X.com''" by code_simp+
  have o: "\<forall>r \<in> set (users db_ann). \<forall>x. email r = Some x \<longrightarrow>
             isascii x \<and> \<not> iexact x ''bob@X.com''"
    using x by (simp add: db_ann_def ann_def)
  have k: "isascii ''Bob@x.COM''" "iexact ''Bob@x.COM'' ''bob@X.com''" by code_simp+
  from create_user_then_lookup [OF create_bob a] s o k a e x create_bob show ?thesis by blast
qed

text \<open>
  C6 as stated fails in two ways, on ASCII addresses. With a blank before the address,
  normalization strips it and the lookup by the upper-cased argument finds nothing.
  With an account in the table whose email differs in case only, the new account is
  created, since the unique constraint compares the strings as they are, and the
  lookup finds two rows.
\<close>

theorem create_user_then_lookup_counterexample:
  "isascii '' ann@x.com'' \<and>
   create_user (Some '' ann@x.com'') (Some ''secret'') (Some ''Ann'') [] db0 = Inr (ann, db_ann) \<and>
   get_by_natural_key (upper '' ann@x.com'') db_ann = Inl DoesNotExist \<and>
   isascii ''Ann@x.com'' \<and>
   create_user (Some ''Ann@x.com'') (Some ''geheim'') (Some ''Ann B'') [] db_ann =
     Inr (ann_b, db_ann_b) \<and>
   get_by_natural_key (upper ''Ann@x.com'') db_ann_b = Inl MultipleObjectsReturned"
  by code_simp

lemma filter_map_replace:
  "pk t = k \<Longrightarrow>
   filter (\<lambda>r. pk r = k) (map (\<lambda>r. if pk r = k then t else r) xs) =
   replicate (length (filter (\<lambda>r. pk r = k) xs)) t"
  by (induction xs) auto

text \<open>The row of a stored account after a save, when the account had one row before.\<close>

lemma save_row_flag:
  assumes s: "save x dx = Inr (self', d')" and stored: "pk x \<noteq> None"
    and one: "length (filter (\<lambda>r. pk r = pk x) (users dx)) = 1"
  shows "map mail_verified (filter (\<lambda>r. pk r = pk self') (users d')) = [mail_verified self']"
proof -
  from stored obtain i where i: "pk x = Some i" by auto
  from save_self(3) [OF s stored] have eq: "self' = x" .
  from one i have "filter (\<lambda>r. pk r = Some i) (users dx) \<noteq> []" by auto
  then have row: "\<exists>r \<in> set (users dx). pk r = Some i"
    by (simp add: filter_empty_conv)
  have "users d' = map (\<lambda>r. if pk r = Some i then user_row.truncate x else r) (users dx)"
    by (rule save_update [OF s i row])
  then have "filter (\<lambda>r. pk r = Some i) (users d') =
      replicate (length (filter (\<lambda>r. pk r = Some i) (users dx))) (user_row.truncate x)"
    using i by (simp add: filter_map_replace)
  with one i eq show ?thesis by simp
qed

lemma coupled_row:
  assumes "verification_coupled self d"
  shows "pk self \<noteq> None" and "length (filter (\<lambda>r. pk r = pk self) (users d)) = 1"
    and "vc_filter (pk self) EMAIL_VERIFICATION d \<noteq> [] \<longleftrightarrow> \<not> mail_verified self"
proof -
  from assms show "pk self \<noteq> None" by (simp add: verification_coupled_def)
  from assms have "map mail_verified (filter (\<lambda>r. pk r = pk self) (users d)) = [mail_verified self]"
    by (simp add: verification_coupled_def)
  then have "length (map mail_verified (filter (\<lambda>r. pk r = pk self) (users d))) = 1"
    by simp
  then show "length (filter (\<lambda>r. pk r = pk self) (users d)) = 1" by simp
  from assms show "vc_filter (pk self) EMAIL_VERIFICATION d \<noteq> [] \<longleftrightarrow> \<not> mail_verified self"
    by (simp add: verification_coupled_def code_pending_def)
qed

lemma coupled_cong:
  assumes "verification_coupled self d" and "pk self' = pk self"
    and "mail_verified self' = mail_verified self" and "users d' = users d"
    and "vc_filter (pk self) EMAIL_VERIFICATION d' = vc_filter (pk self) EMAIL_VERIFICATION d"
  shows "verification_coupled self' d'"
  using assms by (simp add: verification_coupled_def code_pending_def)

lemma verify_mail_coupled:
  assumes v: "verify_mail self d = Inr (self', d')" and inv: "verification_coupled self d"
  shows "verification_coupled self' d'"
proof -
  let ?x = "self\<lparr>email := unverified_email self, mail_verified := True\<rparr>"
  let ?d1 = "vc_delete (pk self) EMAIL_VERIFICATION d"
  from v have s: "save ?x ?d1 = Inr (self', d')" by (simp add: verify_mail_def Let_def)
  from coupled_row(1) [OF inv] have sx: "pk ?x \<noteq> None" by simp
  from save_self(3) [OF s sx] have self': "self' = ?x" .
  have one: "length (filter (\<lambda>r. pk r = pk ?x) (users ?d1)) = 1"
    using coupled_row(2) [OF inv] by (simp add: vc_delete_def)
  have "vc_filter (pk self) EMAIL_VERIFICATION d' = vc_filter (pk self) EMAIL_VERIFICATION ?d1"
    by (rule vc_filter_save [OF s])
  then have "vc_filter (pk self') EMAIL_VERIFICATION d' = []" using self' by simp
  moreover have "mail_verified self'" using self' by simp
  moreover have "pk self' \<noteq> None" using self' sx by simp
  ultimately show ?thesis using save_row_flag [OF s sx one]
    by (simp add: verification_coupled_def code_pending_def)
qed

lemma restore_email_coupled:
  assumes v: "restore_email self d = Inr (self', d')" and inv: "verification_coupled self d"
  shows "verification_coupled self' d'"
proof -
  let ?x = "self\<lparr>unverified_email := email self, mail_verified := True\<rparr>"
  let ?d1 = "vc_delete (pk self) EMAIL_VERIFICATION d"
  from v have s: "save ?x ?d1 = Inr (self', d')" by (simp add: restore_email_def Let_def)
  from coupled_row(1) [OF inv] have sx: "pk ?x \<noteq> None" by simp
  from save_self(3) [OF s sx] have self': "self' = ?x" .
  have one: "length (filter (\<lambda>r. pk r = pk ?x) (users ?d1)) = 1"
    using coupled_row(2) [OF inv] by (simp add: vc_delete_def)
  have "vc_filter (pk self) EMAIL_VERIFICATION d' = vc_filter (pk self) EMAIL_VERIFICATION ?d1"
    by (rule vc_filter_save [OF s])
  then have "vc_filter (pk self') EMAIL_VERIFICATION d' = []" using self' by simp
  moreover have "mail_verified self'" using self' by simp
  moreover have "pk self' \<noteq> None" using self' sx by simp
  ultimately show ?thesis using save_row_flag [OF s sx one]
    by (simp add: verification_coupled_def code_pending_def)
qed

lemma unverify_mail'_coupled:
  assumes v: "unverify_mail' self d = Inr (self', d')"
    and one: "length (filter (\<lambda>r. pk r = pk self) (users d)) = 1"
  shows "verification_coupled self' d'"
proof -
  let ?x = "self\<lparr>mail_verified := False\<rparr>"
  from unverify_mail'_save [OF v] obtain d2 where
    s: "save ?x d2 = Inr (self', d')" and u: "users d2 = users d" by blast
  from unverify_mail'_Inr(1) [OF v] have sx: "pk ?x \<noteq> None" by simp
  note self' = unverify_mail'_Inr(2) [OF v]
  have one': "length (filter (\<lambda>r. pk r = pk ?x) (users d2)) = 1"
    using one u by simp
  have "vc_filter (pk self') EMAIL_VERIFICATION d' \<noteq> []"
    using unverify_mail'_Inr(3) [OF v] self' by simp
  moreover have "\<not> mail_verified self'" by (subst self') simp
  moreover have "pk self' \<noteq> None" using self' sx by simp
  ultimately show ?thesis using save_row_flag [OF s sx one']
    by (simp add: verification_coupled_def code_pending_def)
qed

lemma coupled_send:
  "verification_coupled self d \<Longrightarrow> verification_coupled self (send m d)"
  by (simp add: verification_coupled_def code_pending_def send_def vc_filter_def)

lemma send_mail_verification_code_coupled:
  assumes v: "send_mail_verification_code self d = Inr (self', d')"
    and one: "length (filter (\<lambda>r. pk r = pk self) (users d)) = 1"
  shows "verification_coupled self' d'"
proof -
  from send_mail_verification_code_Inr [OF v] obtain d1 where
    u: "unverify_mail' self d = Inr (self', d1)"
    and d': "d' = send (prepare_mailverification_email self' (next_code d)) d1"
    by blast
  from unverify_mail'_coupled [OF u one] d' show ?thesis by (simp add: coupled_send)
qed

lemma update_email_coupled:
  assumes v: "update_email new self d = Inr (self', d')" and inv: "verification_coupled self d"
  shows "verification_coupled self' d'"
proof -
  let ?self1 = "self\<lparr>unverified_email := Some new\<rparr>"
  let ?d1 = "send_mail_change_notification' ?self1 d"
  from v have s: "send_mail_verification_code ?self1 ?d1 = Inr (self', d')"
    by (simp add: update_email_def Let_def)
  have "length (filter (\<lambda>r. pk r = pk ?self1) (users ?d1)) = 1"
    using coupled_row(2) [OF inv] by (simp add: send_mail_change_notification'_def send_def)
  then show ?thesis by (rule send_mail_verification_code_coupled [OF s])
qed

lemma send_account_deletion_verification_code_coupled:
  assumes v: "send_account_deletion_verification_code self d = Inr (self', d')"
    and inv: "verification_coupled self d"
  shows "verification_coupled self' d'"
proof -
  let ?d1 = "vc_delete (pk self) ACCOUNT_DELETE d"
  from v obtain d2 where c: "vc_create (pk self) ACCOUNT_DELETE ?d1 = Inr d2"
    and r: "self' = self"
      "d' = send (prepare_email ''accountdelete_request'' self (Some (next_code ?d1))) d2"
    by (auto simp: send_account_deletion_verification_code_def Let_def then_do_eq_Inr)
  have "vc_filter (pk self) EMAIL_VERIFICATION d2 = vc_filter (pk self) EMAIL_VERIFICATION d"
    using vc_filter_vc_create_other [OF c, of "pk self" EMAIL_VERIFICATION]
      vc_filter_vc_delete_other [of "pk self" "pk self" EMAIL_VERIFICATION ACCOUNT_DELETE d]
    by simp
  moreover from vc_create_Inr [OF c] have "users d2 = users d" by (auto simp: vc_delete_def)
  ultimately have "verification_coupled self d2"
    using inv by (intro coupled_cong [OF inv]) simp_all
  with r show ?thesis by (simp add: coupled_send)
qed

lemma reset_password_coupled:
  assumes v: "reset_password self d = Inr (self', d')" and inv: "verification_coupled self d"
  shows "verification_coupled self' d'"
proof -
  let ?d1 = "vc_delete (pk self) PASSWORD_RESET d"
  from v obtain d2 where c: "vc_create (pk self) PASSWORD_RESET ?d1 = Inr d2"
    and g: "then_do (vc_get (pk self) PASSWORD_RESET d2) (\<lambda>c.
              Inr (self, send (prepare_email ''passwordreset'' self (Some (vc_code c))) d2)) =
            Inr (self', d')"
    by (auto simp: reset_password_def Let_def then_do_eq_Inr)
  from g obtain m where r: "self' = self" "d' = send m d2"
    by (auto simp: then_do_eq_Inr)
  have "vc_filter (pk self) EMAIL_VERIFICATION d2 = vc_filter (pk self) EMAIL_VERIFICATION d"
    using vc_filter_vc_create_other [OF c, of "pk self" EMAIL_VERIFICATION]
      vc_filter_vc_delete_other [of "pk self" "pk self" EMAIL_VERIFICATION PASSWORD_RESET d]
    by simp
  moreover from vc_create_Inr [OF c] have "users d2 = users d" by (auto simp: vc_delete_def)
  ultimately have "verification_coupled self d2"
    using inv by (intro coupled_cong [OF inv]) simp_all
  with r show ?thesis by (simp add: coupled_send)
qed

lemma save_coupled:
  assumes s: "save x d = Inr (self', d')" and inv: "verification_coupled self d"
    and x: "pk x = pk self" "mail_verified x = mail_verified self"
  shows "verification_coupled self' d'"
proof -
  from coupled_row(1) [OF inv] x have sx: "pk x \<noteq> None" by simp
  from save_self(3) [OF s sx] have self': "self' = x" .
  have one: "length (filter (\<lambda>r. pk r = pk x) (users d)) = 1"
    using coupled_row(2) [OF inv] x by simp
  have "vc_filter (pk self) EMAIL_VERIFICATION d' = vc_filter (pk self) EMAIL_VERIFICATION d"
    by (rule vc_filter_save [OF s])
  with coupled_row(3) [OF inv] save_row_flag [OF s sx one] self' x sx
  show ?thesis by (simp add: verification_coupled_def code_pending_def)
qed

lemma change_password_coupled:
  assumes v: "change_password new_password self d = Inr (self', d')"
    and inv: "verification_coupled self d"
  shows "verification_coupled self' d'"
proof -
  from v obtain d1 where s: "save (set_password (Some new_password) self) d = Inr (self', d1)"
    and d': "d' = vc_delete (pk self') PASSWORD_RESET
                    (send (prepare_email ''passwordchange'' self' None) d1)"
    by (auto simp: change_password_def then_do_eq_Inr)
  have c1: "verification_coupled self' d1"
    by (rule save_coupled [OF s inv]) (simp_all add: set_password_def)
  show ?thesis
  proof (rule coupled_cong [OF c1])
    show "users d' = users d1" using d' by (simp add: vc_delete_def send_def)
    show "vc_filter (pk self') EMAIL_VERIFICATION d' = vc_filter (pk self') EMAIL_VERIFICATION d1"
      using d' by (simp add: vc_filter_vc_delete_other)
  qed simp_all
qed

lemma call_coupled:
  assumes "call op self d = Inr (self', d')" and "verification_coupled self d"
    and "\<forall>now. op \<noteq> Delete now"
  shows "verification_coupled self' d'"
proof (cases op)
  case Verify_mail
  with assms show ?thesis by (simp add: verify_mail_coupled)
next
  case (Update_email new)
  with assms show ?thesis by (auto intro: update_email_coupled)
next
  case Restore_email
  with assms show ?thesis by (simp add: restore_email_coupled)
next
  case (Update_language lang)
  with assms have "self' = self\<lparr>language := lang\<rparr>" "d' = d"
    by (auto simp: update_language_def)
  then show ?thesis by (intro coupled_cong [OF assms(2)]) simp_all
next
  case Send_mail_verification_code
  with assms coupled_row(2) [OF assms(2)] show ?thesis
    by (auto intro: send_mail_verification_code_coupled)
next
  case Send_account_deletion_verification_code
  with assms show ?thesis by (auto intro: send_account_deletion_verification_code_coupled)
next
  case Reset_password
  with assms show ?thesis by (auto intro: reset_password_coupled)
next
  case (Change_password new_password)
  with assms show ?thesis by (auto intro: change_password_coupled)
next
  case (Delete now)
  with assms show ?thesis by simp
qed

lemma run_coupled:
  assumes "run ops self d = Inr (self', d')" and "verification_coupled self d"
    and "\<forall>now. Delete now \<notin> set ops"
  shows "verification_coupled self' d'"
  using assms
proof (induction ops arbitrary: self d)
  case Nil
  then show ?case by simp
next
  case (Cons op ops)
  from Cons.prems(1) obtain self1 d1 where
    c: "call op self d = Inr (self1, d1)" and r: "run ops self1 d1 = Inr (self', d')"
    by (auto simp: then_do_eq_Inr)
  from Cons.prems(3) have "\<forall>now. op \<noteq> Delete now" by auto
  from call_coupled [OF c Cons.prems(2) this] have "verification_coupled self1 d1" .
  moreover from Cons.prems(3) have "\<forall>now. Delete now \<notin> set ops" by auto
  ultimately show ?case using r Cons.IH by blast
qed

lemma create_user'_coupled:
  assumes "create_user' (Some E) pw name active extra_fields d = Inr (u, d')"
  shows "verification_coupled u d'"
proof -
  note f = create_user'_Inr [OF assms]
  have "filter (\<lambda>r. pk r = pk u) (users d) = []"
    using f(1) by (simp add: filter_empty_conv fresh_pk_fresh)
  then have "filter (\<lambda>r. pk r = pk u) (users d') = [user_row.truncate u]"
    using f(5) by simp
  with f(1,4,6) show ?thesis
    by (simp add: verification_coupled_def code_pending_def)
qed

text \<open>
  C3, as the code has it. An account made by \<open>create_user\<close> or \<open>create_superuser\<close>
  and then taken through any run of calls that all return and among which there is
  no \<open>delete_\<close> is stored in one row that carries its \<open>mail_verified\<close>, and has an
  EMAIL_VERIFICATION code pending exactly when \<open>mail_verified\<close> is false.
\<close>

theorem verification_coupled_without_delete:
  assumes created: "create_user (Some E) pw name extra_fields d0 = Inr (u0, d1) \<or>
                    create_superuser (Some E) pw extra_fields d0 = Inr (u0, d1)"
    and r: "run ops u0 d1 = Inr (u, d)"
    and no_delete: "\<forall>now. Delete now \<notin> set ops"
  shows "verification_coupled u d"
proof -
  have start: "verification_coupled u0 d1"
    using created
  proof
    assume "create_user (Some E) pw name extra_fields d0 = Inr (u0, d1)"
    then show ?thesis by (simp add: create_user_def create_user'_coupled)
  next
    assume "create_superuser (Some E) pw extra_fields d0 = Inr (u0, d1)"
    then obtain u' d' where c: "create_user' (Some E) pw (Some E) True extra_fields d0 = Inr (u', d')"
      and s: "save (u'\<lparr>is_superuser := True, is_staff := True\<rparr>) d' = Inr (u0, d1)"
      by (auto simp: create_superuser_def then_do_eq_Inr Let_def)
    show ?thesis
      by (rule save_coupled [OF s create_user'_coupled [OF c]]) simp_all
  qed
  show ?thesis by (rule run_coupled [OF r start no_delete])
qed

lemma run_ann:
  "run [Verify_mail, Update_email ''ann@y.org'', Reset_password, Restore_email] ann db_ann =
     Inr (ann_verified,
          db_verified\<lparr>codes := [\<lparr>vc_user = 1, vc_type = PASSWORD_RESET, vc_code = 2\<rparr>],
            next_code := 3,
            outbox := outbox db_ann @
              [\<lparr>template = ''changemail_notice'', recipient = Some ''ann@x.com'', code_sent = None\<rparr>,
               \<lparr>template = ''mailverification'', recipient = Some ''ann@y.org'', code_sent = Some 1\<rparr>,
               \<lparr>template = ''passwordreset'', recipient = Some ''ann@x.com'', code_sent = Some 2\<rparr>]\<rparr>)"
  by code_simp

theorem verification_coupled_without_delete_witness:
  "create_user (Some ''ann@X.com'') (Some ''secret'') (Some ''Ann'') [] db0 = Inr (ann, db_ann) \<and>
   (\<forall>now. Delete now \<notin>
      set [Verify_mail, Update_email ''ann@y.org'', Reset_password, Restore_email]) \<and>
   verification_coupled ann_verified
     (db_verified\<lparr>codes := [\<lparr>vc_user = 1, vc_type = PASSWORD_RESET, vc_code = 2\<rparr>],
            next_code := 3,
            outbox := outbox db_ann @
              [\<lparr>template = ''changemail_notice'', recipient = Some ''ann@x.com'', code_sent = None\<rparr>,
               \<lparr>template = ''mailverification'', recipient = Some ''ann@y.org'', code_sent = Some 1\<rparr>,
               \<lparr>template = ''passwordreset'', recipient = Some ''ann@x.com'', code_sent = Some 2\<rparr>]\<rparr>)"
proof -
  have n: "\<forall>now. Delete now \<notin>
      set [Verify_mail, Update_email ''ann@y.org'', Reset_password, Restore_email]"
    by simp
  from verification_coupled_without_delete [OF disjI1 [OF create_ann] run_ann n] create_ann n
  show ?thesis by blast
qed

text \<open>
  C3 as stated fails at \<open>delete_\<close>: Ann is created and verified, so that no code is
  pending, and then deleted. \<open>delete_\<close> sets \<open>mail_verified\<close> to false and issues no
  code: the flag is false and no EMAIL_VERIFICATION code exists.
\<close>

theorem verification_coupled_delete_counterexample:
  "create_user (Some ''ann@X.com'') (Some ''secret'') (Some ''Ann'') [] db0 = Inr (ann, db_ann) \<and>
   run [Verify_mail, Delete 7] ann db_ann = Inr (ann_deleted, db_ann_deleted) \<and>
   \<not> mail_verified ann_deleted \<and>
   vc_filter (pk ann_deleted) EMAIL_VERIFICATION db_ann_deleted = [] \<and>
   \<not> code_pending ann_deleted db_ann_deleted \<and>
   \<not> verification_coupled ann_deleted db_ann_deleted"
  by code_simp

end
